theory Spec2Isabelle
  imports Complex_Main
begin

section \<open>BrownFi pool math: the embedding\<close>

text \<open>
  The quoting functions of \<^verbatim>\<open>BrownFiPoolMath\<close> (V1) and \<^verbatim>\<open>BrownFiV2PoolMath\<close> (V2)
  are pure functions over \<^verbatim>\<open>bigint\<close>. A \<^verbatim>\<open>bigint\<close> is an unbounded integer, modelled
  as \<^typ>\<open>int\<close>. Its division \<^verbatim>\<open>/\<close> truncates toward zero, its remainder \<^verbatim>\<open>%\<close> has the
  sign of the dividend, and both throw a \<^verbatim>\<open>RangeError\<close> on a zero divisor. Every
  \<^verbatim>\<open>throw\<close> of the source is an \<open>Inl\<close> result of the model.
\<close>

subsection \<open>Errors and bigint division\<close>

datatype error =
    INSUFFICIENT_INPUT_AMOUNT
  | INSUFFICIENT_OUTPUT_AMOUNT
  | INSUFFICIENT_LIQUIDITY
  | MAX_80_PERCENT_OF_RESERVE
  | RangeError

definition andThen :: "error + 'a \<Rightarrow> ('a \<Rightarrow> error + 'b) \<Rightarrow> error + 'b" where
  "andThen r f = (case r of Inl e \<Rightarrow> Inl e | Inr v \<Rightarrow> f v)"

text \<open>The quotient and remainder of two bigints, for a divisor that is not zero.\<close>

definition bigint_div :: "int \<Rightarrow> int \<Rightarrow> int" where
  "bigint_div a b = sgn a * sgn b * (\<bar>a\<bar> div \<bar>b\<bar>)"

definition bigint_rem :: "int \<Rightarrow> int \<Rightarrow> int" where
  "bigint_rem a b = sgn a * (\<bar>a\<bar> mod \<bar>b\<bar>)"

subsection \<open>Pool states\<close>

text \<open>
  Modelled from the spec: the interface \<^verbatim>\<open>BasePoolState\<close> (\<^verbatim>\<open>base/BasePoolState.ts\<close> is
  not among the sources). It holds the identifiers \<^verbatim>\<open>address\<close>, \<^verbatim>\<open>token0\<close>, \<^verbatim>\<open>token1\<close> and
  the reserves \<^verbatim>\<open>reserve0\<close>, \<^verbatim>\<open>reserve1\<close>, as section 3 of the specification lists them
  and as the pool literals of the tests and the state providers give them.
\<close>

record BasePoolState =
  address :: string
  token0 :: string
  token1 :: string
  reserve0 :: int
  reserve1 :: int

text \<open>
  Modelled from the spec: the interface \<^verbatim>\<open>BrownFiBasePoolState\<close> of the V1 state
  (\<^verbatim>\<open>BrownFiBasePoolState.ts\<close> is not among the sources). It adds to the base state the
  fields \<^verbatim>\<open>kappa\<close>, \<^verbatim>\<open>fee\<close> and \<^verbatim>\<open>oraclePrice\<close>, which are the fields
  \<^verbatim>\<open>swapExactOutput\<close> reads and the pool literal of the V1 test gives; they are \<open>kappa_v1\<close>
  and \<open>fee_v1\<close> here, since a field name is a constant of the theory. The fields
  \<^verbatim>\<open>decimalShift\<close> and \<^verbatim>\<open>qti\<close> of \<^verbatim>\<open>BrownFiPoolState\<close> are read by no quoting function.
\<close>

record BrownFiBasePoolState = BasePoolState +
  kappa_v1 :: int
  fee_v1 :: int
  oraclePrice :: int

text \<open>
  The V2 state is \<^verbatim>\<open>BrownFiV2PoolState\<close>. Its \<^verbatim>\<open>number\<close> fields \<^verbatim>\<open>fee\<close>,
  \<^verbatim>\<open>token0Decimals\<close> and \<^verbatim>\<open>token1Decimals\<close> are integral numbers (\<^verbatim>\<open>BigInt\<close> is applied to
  each of them), hence \<^typ>\<open>int\<close>.
\<close>

record BrownFiV2PoolState = BasePoolState +
  kappa :: int
  lambda :: int
  fee :: int
  token0Decimals :: int
  token1Decimals :: int
  price0 :: int
  price1 :: int
  updateFee :: int
  updateFeedData :: string

subsection \<open>V1: \<^verbatim>\<open>BrownFiPoolMath\<close>\<close>

definition FEE_DENOMINATOR :: int where
  "FEE_DENOMINATOR = 10000"

definition Q128 :: int where
  "Q128 = 2 ^ 128"

definition mulDivRoundingUp :: "int \<Rightarrow> int \<Rightarrow> int \<Rightarrow> error + int" where
  "mulDivRoundingUp a b denominator =
     (let product = a * b in
      if denominator = 0 then Inl RangeError
      else
        let result = bigint_div product denominator in
        if bigint_rem product denominator > 0 then Inr (result + 1) else Inr result)"

definition BrownFiPoolMath_swapExactInput ::
  "BrownFiBasePoolState \<Rightarrow> bool \<Rightarrow> int \<Rightarrow> error + int" where
  "BrownFiPoolMath_swapExactInput pool zeroToOne amountIn = Inr amountIn"

definition BrownFiPoolMath_swapExactOutput ::
  "BrownFiBasePoolState \<Rightarrow> bool \<Rightarrow> int \<Rightarrow> error + int" where
  "BrownFiPoolMath_swapExactOutput pool zeroToOne amountOut =
     (let reserveIn = (if zeroToOne then reserve0 pool else reserve1 pool);
          reserveOut = (if zeroToOne then reserve1 pool else reserve0 pool);
          oPrice = oraclePrice pool;
          kappa = (if kappa_v1 pool = 0 then Q128 else kappa_v1 pool)
      in
      if amountOut \<le> 0 then Inl INSUFFICIENT_OUTPUT_AMOUNT
      else if reserveIn \<le> 0 \<or> reserveOut \<le> 0 then Inl INSUFFICIENT_LIQUIDITY
      else
        andThen (mulDivRoundingUp amountOut FEE_DENOMINATOR (FEE_DENOMINATOR - fee_v1 pool))
          (\<lambda>amountOutWithFee.
            if amountOutWithFee * 10 \<ge> reserveOut * 9 then Inl INSUFFICIENT_OUTPUT_AMOUNT
            else
              andThen (mulDivRoundingUp kappa amountOutWithFee (reserveOut - amountOutWithFee))
                (\<lambda>r.
                  if zeroToOne then
                    andThen (mulDivRoundingUp (Q128 * 2 + r) Q128 (oPrice * 2))
                      (\<lambda>avgPrice. mulDivRoundingUp amountOutWithFee avgPrice Q128)
                  else
                    andThen (mulDivRoundingUp oPrice (Q128 * 2 + r) (Q128 * 2))
                      (\<lambda>avgPrice. mulDivRoundingUp amountOutWithFee avgPrice Q128))))"

subsection \<open>V2: \<^verbatim>\<open>BrownFiV2PoolMath\<close>\<close>

definition PRECISION :: int where
  "PRECISION = 100000000"

definition DECIMALS :: int where
  "DECIMALS = 18"

definition Q64 :: int where
  "Q64 = 2 ^ 64"

definition mulDiv :: "int \<Rightarrow> int \<Rightarrow> int \<Rightarrow> error + int" where
  "mulDiv a b denominator =
     (if denominator = 0 then Inl RangeError else Inr (bigint_div (a * b) denominator))"

text \<open>
  The loop of \<^verbatim>\<open>sqrt\<close>: \<^verbatim>\<open>while (y < x) { x = y; y = (value / x + x) / 2n; }\<close>, then
  \<^verbatim>\<open>return x\<close>. The division \<^verbatim>\<open>value / x\<close> is by the new \<open>x\<close>, which is the old \<open>y\<close>.
\<close>

definition newton_step :: "int \<Rightarrow> int \<Rightarrow> int" where
  "newton_step v y = bigint_div (bigint_div v y + y) 2"

function sqrt_loop :: "int \<Rightarrow> int \<Rightarrow> int \<Rightarrow> error + int" where
  "sqrt_loop v x y =
     (if y < x then
        (if y = 0 then Inl RangeError
         else sqrt_loop v y (newton_step v y))
      else Inr x)"
  by pat_completeness auto

text \<open>The measure for the termination of the loop, on all integers.\<close>

definition sqrt_loop_measure :: "int \<times> int \<times> int \<Rightarrow> nat" where
  "sqrt_loop_measure = (\<lambda>(v, x, y).
     if \<not> y < x then 0
     else if y = 0 then 1
     else if 0 < y then nat y + 3
     else 1 + (if newton_step v y < y
               then 1 + (if newton_step v (newton_step v y) < newton_step v y then 1 else 0)
               else 0))"

definition sqrt_bigint :: "int \<Rightarrow> error + int" where
  "sqrt_bigint v = (if v = 0 then Inr 0 else sqrt_loop v v (bigint_div (v + 1) 2))"

text \<open>
  The exponent of \<^verbatim>\<open>10n ** (...)\<close> is never negative in either branch, and the power is
  never zero, so neither helper can throw.
\<close>

definition parseRawToDefaultDecimals :: "int \<Rightarrow> int \<Rightarrow> int" where
  "parseRawToDefaultDecimals tokenDecimals amount =
     (if tokenDecimals > DECIMALS
      then bigint_div amount (10 ^ nat (tokenDecimals - DECIMALS))
      else amount * 10 ^ nat (DECIMALS - tokenDecimals))"

definition parseDefaultDecimalsToRaw :: "int \<Rightarrow> int \<Rightarrow> int" where
  "parseDefaultDecimalsToRaw tokenDecimals amount =
     (if tokenDecimals > DECIMALS
      then amount * 10 ^ nat (tokenDecimals - DECIMALS)
      else bigint_div amount (10 ^ nat (DECIMALS - tokenDecimals)))"

definition getSkewnessPrice ::
  "int \<Rightarrow> int \<Rightarrow> int \<Rightarrow> int \<Rightarrow> int \<Rightarrow> error + (int \<times> int)" where
  "getSkewnessPrice priceA priceB reserveA reserveB lam =
     (if lam = 0 then Inr (priceA, priceB)
      else
        let reserveAPrice = reserveA * priceA;
            reserveBPrice = reserveB * priceB;
            reservePriceDiff = (if reserveAPrice \<ge> reserveBPrice
                                then reserveAPrice - reserveBPrice
                                else reserveBPrice - reserveAPrice);
            reservePriceSum = reserveAPrice + reserveBPrice
        in
        andThen (mulDiv reservePriceDiff lam reservePriceSum)
          (\<lambda>s.
            let q64PlusS = Q64 + s;
                q64MinusS = Q64 - s
            in
            if reserveAPrice \<ge> reserveBPrice then
              andThen (mulDiv priceA q64MinusS Q64)
                (\<lambda>pa. andThen (mulDiv priceB q64PlusS Q64) (\<lambda>pb. Inr (pa, pb)))
            else
              andThen (mulDiv priceA q64PlusS Q64)
                (\<lambda>pa. andThen (mulDiv priceB q64MinusS Q64) (\<lambda>pb. Inr (pa, pb)))))"

definition computeLeftNumerator :: "int \<Rightarrow> int \<Rightarrow> int \<Rightarrow> int \<Rightarrow> int" where
  "computeLeftNumerator amountIn priceIn priceOut reserveOut =
     priceOut * reserveOut + priceIn * amountIn"

definition computeLeftSqrt :: "int \<Rightarrow> int \<Rightarrow> int \<Rightarrow> int \<Rightarrow> error + int" where
  "computeLeftSqrt amountIn priceIn priceOut reserveOut =
     andThen (mulDiv amountIn priceIn Q64)
       (\<lambda>m1. andThen (mulDiv reserveOut priceOut Q64)
         (\<lambda>m2. let temp = (if m1 > m2 then m1 - m2 else m2 - m1) in Inr (temp * temp)))"

definition computeRightSqrt :: "int \<Rightarrow> int \<Rightarrow> int \<Rightarrow> int \<Rightarrow> int \<Rightarrow> error + int" where
  "computeRightSqrt amountIn priceIn priceOut reserveOut k =
     andThen (mulDiv (priceIn * priceOut) k (Q64 * Q64))
       (\<lambda>m1. andThen (mulDiv (reserveOut * amountIn) 2 Q64) (\<lambda>m2. Inr (m1 * m2)))"

text \<open>
  The prices both quoting functions use: the skew-adjusted pair, in the order
  (price of the input token, price of the output token).
\<close>

definition skewedPrices :: "BrownFiV2PoolState \<Rightarrow> bool \<Rightarrow> error + (int \<times> int)" where
  "skewedPrices pool zeroToOne =
     getSkewnessPrice
       (if zeroToOne then price0 pool else price1 pool)
       (if zeroToOne then price1 pool else price0 pool)
       (parseRawToDefaultDecimals (token0Decimals pool) (reserve0 pool))
       (parseRawToDefaultDecimals (token1Decimals pool) (reserve1 pool))
       (lambda pool)"

definition BrownFiV2PoolMath_swapExactInput ::
  "BrownFiV2PoolState \<Rightarrow> bool \<Rightarrow> int \<Rightarrow> error + int" where
  "BrownFiV2PoolMath_swapExactInput pool zeroToOne amountIn =
     (if amountIn \<le> 0 then Inl INSUFFICIENT_INPUT_AMOUNT
      else
        let reserveOut = (if zeroToOne then reserve1 pool else reserve0 pool);
            tokenInDecimals = (if zeroToOne then token0Decimals pool else token1Decimals pool);
            tokenOutDecimals = (if zeroToOne then token1Decimals pool else token0Decimals pool)
        in
        if reserveOut \<le> 0 then Inl INSUFFICIENT_LIQUIDITY
        else
          let parsedAmountIn = parseRawToDefaultDecimals tokenInDecimals amountIn;
              parsedReserveOut = parseRawToDefaultDecimals tokenOutDecimals reserveOut
          in
          andThen (skewedPrices pool zeroToOne)
            (\<lambda>(priceIn, priceOut).
              andThen (mulDiv parsedAmountIn PRECISION (PRECISION + fee pool))
                (\<lambda>amountIn'.
                  andThen
                    (if kappa pool = 2 * Q64 then
                       mulDiv (parsedReserveOut * amountIn') priceIn
                         (priceOut * parsedReserveOut + amountIn' * priceIn)
                     else
                       let leftNumerator =
                             computeLeftNumerator amountIn' priceIn priceOut parsedReserveOut
                       in
                       andThen (computeLeftSqrt amountIn' priceIn priceOut parsedReserveOut)
                         (\<lambda>leftSqrt.
                           andThen
                             (computeRightSqrt amountIn' priceIn priceOut parsedReserveOut
                                (kappa pool))
                             (\<lambda>rightSqrt.
                               andThen (mulDiv priceOut (2 * Q64 - kappa pool) Q64)
                                 (\<lambda>denominator.
                                   andThen (sqrt_bigint (leftSqrt + rightSqrt))
                                     (\<lambda>sqrtTerm.
                                       if denominator = 0 then Inl RangeError
                                       else Inr (bigint_div (leftNumerator - Q64 * sqrtTerm)
                                                   denominator))))))
                    (\<lambda>amountOut. Inr (parseDefaultDecimalsToRaw tokenOutDecimals amountOut)))))"

definition BrownFiV2PoolMath_swapExactOutput ::
  "BrownFiV2PoolState \<Rightarrow> bool \<Rightarrow> int \<Rightarrow> error + int" where
  "BrownFiV2PoolMath_swapExactOutput pool zeroToOne amountOut =
     (if amountOut \<le> 0 then Inl INSUFFICIENT_OUTPUT_AMOUNT
      else
        let reserveOut = (if zeroToOne then reserve1 pool else reserve0 pool);
            tokenInDecimals = (if zeroToOne then token0Decimals pool else token1Decimals pool);
            tokenOutDecimals = (if zeroToOne then token1Decimals pool else token0Decimals pool)
        in
        if reserveOut \<le> 0 then Inl INSUFFICIENT_LIQUIDITY
        else if amountOut * 10 \<ge> reserveOut * 8 then Inl MAX_80_PERCENT_OF_RESERVE
        else
          let parsedAmountOut = parseRawToDefaultDecimals tokenOutDecimals amountOut;
              parsedReserveOut = parseRawToDefaultDecimals tokenOutDecimals reserveOut
          in
          andThen (skewedPrices pool zeroToOne)
            (\<lambda>(priceIn, priceOut).
              andThen (mulDiv (kappa pool * Q64) parsedAmountOut
                         (Q64 * (parsedReserveOut - parsedAmountOut)))
                (\<lambda>priceImpact.
                  andThen (mulDiv priceOut (priceImpact + Q64 * 2) priceIn)
                    (\<lambda>inner.
                      andThen (mulDiv parsedAmountOut inner (Q64 * 2))
                        (\<lambda>amountIn.
                          andThen (mulDiv amountIn (PRECISION + fee pool) PRECISION)
                            (\<lambda>amountIn'.
                              Inr (parseDefaultDecimalsToRaw tokenInDecimals amountIn')))))))"

text \<open>
  \<^verbatim>\<open>spotPriceWithoutFee\<close> returns \<^verbatim>\<open>Number(p) / Number(q)\<close>, a binary64 value. The model
  keeps the exact quotient as a \<^typ>\<open>real\<close> and does not round to binary64; a zero divisor,
  where the source yields an infinity or NaN, is \<open>NotFinite\<close>.
\<close>

datatype number = Num real | NotFinite

definition number_div :: "int \<Rightarrow> int \<Rightarrow> number" where
  "number_div p q = (if q = 0 then NotFinite else Num (real_of_int p / real_of_int q))"

definition BrownFiV2PoolMath_spotPriceWithoutFee ::
  "BrownFiV2PoolState \<Rightarrow> bool \<Rightarrow> error + number" where
  "BrownFiV2PoolMath_spotPriceWithoutFee pool zeroToOne =
     andThen
       (getSkewnessPrice (price0 pool) (price1 pool)
          (parseRawToDefaultDecimals (token0Decimals pool) (reserve0 pool))
          (parseRawToDefaultDecimals (token1Decimals pool) (reserve1 pool))
          (lambda pool))
       (\<lambda>(p0, p1). if zeroToOne then Inr (number_div p0 p1) else Inr (number_div p1 p0))"

subsection \<open>The arithmetic the specification names\<close>

text \<open>
  \<open>mulDivCeil\<close> and \<open>mulDivFloor\<close> as the specification states them: the ceiling and the
  floor of the exact quotient.
\<close>

definition spec_mulDivCeil :: "int \<Rightarrow> int \<Rightarrow> int \<Rightarrow> int" where
  "spec_mulDivCeil a b d = \<lceil>real_of_int (a * b) / real_of_int d\<rceil>"

definition spec_mulDivFloor :: "int \<Rightarrow> int \<Rightarrow> int \<Rightarrow> int" where
  "spec_mulDivFloor a b d = \<lfloor>real_of_int (a * b) / real_of_int d\<rfloor>"

text \<open>
  V1 \<open>quoteByOutput\<close> as the specification states it: every division is a ceiling.
\<close>

definition spec_v1_quoteByOutput :: "BrownFiBasePoolState \<Rightarrow> bool \<Rightarrow> int \<Rightarrow> int" where
  "spec_v1_quoteByOutput pool zeroToOne amountOut =
     (let reserveOut = (if zeroToOne then reserve1 pool else reserve0 pool);
          amountOutWithFee = spec_mulDivCeil amountOut 10000 (10000 - fee_v1 pool);
          kappa' = (if kappa_v1 pool = 0 then Q128 else kappa_v1 pool);
          r = spec_mulDivCeil kappa' amountOutWithFee (reserveOut - amountOutWithFee);
          avgPrice = (if zeroToOne
                      then spec_mulDivCeil (2 * Q128 + r) Q128 (oraclePrice pool * 2)
                      else spec_mulDivCeil (oraclePrice pool) (2 * Q128 + r) (2 * Q128))
      in spec_mulDivCeil amountOutWithFee avgPrice Q128)"

text \<open>
  V2 \<open>quoteByInput\<close> as the specification states it: \<open>isqrtFloor\<close> is the floor of the real
  square root, every division is a floor, rescaling to and from the canonical 18 decimals
  floors when it divides. The price adjustment is that of section 4.2 applied as section
  4.4 says: \<open>priceA\<close> is the price of the input token and \<open>reserveA\<close> the canonical reserve
  of the input token, \<open>priceB\<close> and \<open>reserveB\<close> those of the output token, so that each
  notional value is a reserve times the price of the same token.
\<close>

definition spec_isqrtFloor :: "int \<Rightarrow> int" where
  "spec_isqrtFloor v = \<lfloor>sqrt (real_of_int v)\<rfloor>"

definition spec_toCanonicalScale :: "int \<Rightarrow> int \<Rightarrow> int" where
  "spec_toCanonicalScale decimals amount =
     (if decimals > 18 then amount div 10 ^ nat (decimals - 18)
      else amount * 10 ^ nat (18 - decimals))"

definition spec_fromCanonicalScale :: "int \<Rightarrow> int \<Rightarrow> int" where
  "spec_fromCanonicalScale decimals amount =
     (if decimals > 18 then amount * 10 ^ nat (decimals - 18)
      else amount div 10 ^ nat (18 - decimals))"

definition spec_skewAdjust :: "int \<Rightarrow> int \<Rightarrow> int \<Rightarrow> int \<Rightarrow> int \<Rightarrow> int \<times> int" where
  "spec_skewAdjust priceA priceB reserveA reserveB lam =
     (if lam = 0 then (priceA, priceB)
      else
        let valueA = reserveA * priceA;
            valueB = reserveB * priceB;
            s = spec_mulDivFloor \<bar>valueA - valueB\<bar> lam (valueA + valueB)
        in if valueA \<ge> valueB
           then (spec_mulDivFloor priceA (Q64 - s) Q64, spec_mulDivFloor priceB (Q64 + s) Q64)
           else (spec_mulDivFloor priceA (Q64 + s) Q64, spec_mulDivFloor priceB (Q64 - s) Q64))"

definition spec_reserveIn :: "BrownFiV2PoolState \<Rightarrow> bool \<Rightarrow> int" where
  "spec_reserveIn pool zeroToOne =
     spec_toCanonicalScale (if zeroToOne then token0Decimals pool else token1Decimals pool)
       (if zeroToOne then reserve0 pool else reserve1 pool)"

definition spec_reserveOut :: "BrownFiV2PoolState \<Rightarrow> bool \<Rightarrow> int" where
  "spec_reserveOut pool zeroToOne =
     spec_toCanonicalScale (if zeroToOne then token1Decimals pool else token0Decimals pool)
       (if zeroToOne then reserve1 pool else reserve0 pool)"

definition spec_prices :: "BrownFiV2PoolState \<Rightarrow> bool \<Rightarrow> int \<times> int" where
  "spec_prices pool zeroToOne =
     spec_skewAdjust
       (if zeroToOne then price0 pool else price1 pool)
       (if zeroToOne then price1 pool else price0 pool)
       (spec_reserveIn pool zeroToOne)
       (spec_reserveOut pool zeroToOne)
       (lambda pool)"

definition spec_notionalSum :: "BrownFiV2PoolState \<Rightarrow> bool \<Rightarrow> int" where
  "spec_notionalSum pool zeroToOne =
     spec_reserveIn pool zeroToOne * (if zeroToOne then price0 pool else price1 pool)
     + spec_reserveOut pool zeroToOne * (if zeroToOne then price1 pool else price0 pool)"

definition spec_effIn :: "BrownFiV2PoolState \<Rightarrow> bool \<Rightarrow> int \<Rightarrow> int" where
  "spec_effIn pool zeroToOne amountIn =
     spec_mulDivFloor
       (spec_toCanonicalScale (if zeroToOne then token0Decimals pool else token1Decimals pool)
          amountIn)
       (10 ^ 8) (10 ^ 8 + fee pool)"

definition spec_cpDenominator :: "BrownFiV2PoolState \<Rightarrow> bool \<Rightarrow> int \<Rightarrow> int" where
  "spec_cpDenominator pool zeroToOne amountIn =
     snd (spec_prices pool zeroToOne) * spec_reserveOut pool zeroToOne
     + spec_effIn pool zeroToOne amountIn * fst (spec_prices pool zeroToOne)"

definition spec_leftNumerator :: "BrownFiV2PoolState \<Rightarrow> bool \<Rightarrow> int \<Rightarrow> int" where
  "spec_leftNumerator pool zeroToOne amountIn =
     snd (spec_prices pool zeroToOne) * spec_reserveOut pool zeroToOne
     + fst (spec_prices pool zeroToOne) * spec_effIn pool zeroToOne amountIn"

definition spec_leftSqrt :: "BrownFiV2PoolState \<Rightarrow> bool \<Rightarrow> int \<Rightarrow> int" where
  "spec_leftSqrt pool zeroToOne amountIn =
     \<bar>spec_mulDivFloor (spec_effIn pool zeroToOne amountIn) (fst (spec_prices pool zeroToOne)) Q64
      - spec_mulDivFloor (spec_reserveOut pool zeroToOne) (snd (spec_prices pool zeroToOne)) Q64\<bar>\<^sup>2"

definition spec_rightSqrt :: "BrownFiV2PoolState \<Rightarrow> bool \<Rightarrow> int \<Rightarrow> int" where
  "spec_rightSqrt pool zeroToOne amountIn =
     spec_mulDivFloor (fst (spec_prices pool zeroToOne) * snd (spec_prices pool zeroToOne))
       (kappa pool) (Q64\<^sup>2)
     * spec_mulDivFloor (spec_reserveOut pool zeroToOne * spec_effIn pool zeroToOne amountIn)
         2 Q64"

definition spec_denominator :: "BrownFiV2PoolState \<Rightarrow> bool \<Rightarrow> int" where
  "spec_denominator pool zeroToOne =
     spec_mulDivFloor (snd (spec_prices pool zeroToOne)) (2 * Q64 - kappa pool) Q64"

definition spec_quoteByInput :: "BrownFiV2PoolState \<Rightarrow> bool \<Rightarrow> int \<Rightarrow> int" where
  "spec_quoteByInput pool zeroToOne amountIn =
     spec_fromCanonicalScale (if zeroToOne then token1Decimals pool else token0Decimals pool)
       (if kappa pool = 2 * Q64 then
          spec_mulDivFloor
            (spec_reserveOut pool zeroToOne * spec_effIn pool zeroToOne amountIn)
            (fst (spec_prices pool zeroToOne))
            (spec_cpDenominator pool zeroToOne amountIn)
        else
          (spec_leftNumerator pool zeroToOne amountIn
             - Q64 * spec_isqrtFloor (spec_leftSqrt pool zeroToOne amountIn
                                       + spec_rightSqrt pool zeroToOne amountIn))
          div spec_denominator pool zeroToOne)"

text \<open>The parameters of a V2 pool are in the range the monotonicity of its quotes needs.\<close>

definition v2_parameters_in_range :: "BrownFiV2PoolState \<Rightarrow> bool" where
  "v2_parameters_in_range pool \<longleftrightarrow>
     0 \<le> reserve0 pool \<and> 0 \<le> reserve1 pool \<and> 0 \<le> price0 pool \<and> 0 \<le> price1 pool
     \<and> 0 \<le> kappa pool \<and> 0 \<le> fee pool \<and> 0 \<le> lambda pool \<and> lambda pool \<le> Q64"

text \<open>A result fails, if it fails, with one of the errors of \<open>E\<close>.\<close>

definition fails_only_with :: "error set \<Rightarrow> error + 'a \<Rightarrow> bool" where
  "fails_only_with E r = (case r of Inl e \<Rightarrow> e \<in> E | Inr v \<Rightarrow> True)"

subsection \<open>Reference pool states of the test vectors\<close>

definition v1_reference_pool :: BrownFiBasePoolState where
  "v1_reference_pool =
     \<lparr> address = ''0x0000000000000000000000000000000000000000'',
       token0 = ''0x0000000000000000000000000000000000000000'',
       token1 = ''0x0000000000000000000000000000000000000000'',
       reserve0 = 100000000000000000000,
       reserve1 = 200000000000000000000,
       kappa_v1 = 2 * Q128,
       fee_v1 = 25,
       oraclePrice = 2 * Q128 \<rparr>"

definition v2_reference_pool :: BrownFiV2PoolState where
  "v2_reference_pool =
     \<lparr> address = ''0x0000000000000000000000000000000000000000'',
       token0 = ''0x0000000000000000000000000000000000000000'',
       token1 = ''0x0000000000000000000000000000000000000000'',
       reserve0 = 100000000000000000000,
       reserve1 = 200000000000000000000,
       kappa = 2 * Q64,
       lambda = 0,
       fee = 250000,
       token0Decimals = 18,
       token1Decimals = 18,
       price0 = 2 * Q64,
       price1 = 1 * Q64,
       updateFee = 0,
       updateFeedData = ''0x'' \<rparr>"

section \<open>Arithmetic of bigint division\<close>

lemma bigint_div_nonneg: "0 \<le> a \<Longrightarrow> 0 < b \<Longrightarrow> bigint_div a b = a div b"
  by (cases "a = 0") (simp_all add: bigint_div_def)

lemma bigint_div_neg_divisor: "0 \<le> a \<Longrightarrow> b < 0 \<Longrightarrow> bigint_div a b = - (a div (- b))"
  by (cases "a = 0") (simp_all add: bigint_div_def)

lemma bigint_div_neg_dividend: "a \<le> 0 \<Longrightarrow> 0 < b \<Longrightarrow> bigint_div a b = - ((- a) div b)"
  by (cases "a = 0") (simp_all add: bigint_div_def)

lemma bigint_div_neg_neg: "a \<le> 0 \<Longrightarrow> b < 0 \<Longrightarrow> bigint_div a b = (- a) div (- b)"
  by (cases "a = 0") (simp_all add: bigint_div_def)

lemma int_le_div_iff:
  fixes a b q :: int
  assumes "0 < b"
  shows "q \<le> a div b \<longleftrightarrow> q * b \<le> a"
proof
  assume "q \<le> a div b"
  then have "q * b \<le> (a div b) * b" using assms by (simp add: mult_right_mono)
  also have "\<dots> \<le> a"
    using assms by (metis add.commute add_increasing mult.commute mult_div_mod_eq pos_mod_sign order_refl)
  finally show "q * b \<le> a" .
next
  assume "q * b \<le> a"
  then have "(q * b) div b \<le> a div b" using assms by (rule zdiv_mono1)
  then show "q \<le> a div b" using assms by simp
qed

lemma int_div_less_iff:
  fixes a b q :: int
  assumes "0 < b"
  shows "a div b < q \<longleftrightarrow> a < q * b"
  using int_le_div_iff [OF assms, of q a] by linarith

lemma newton_AM_GM:
  fixes v z :: int
  assumes "0 \<le> v" "0 < z"
  shows "v < ((v div z + z) div 2 + 1)\<^sup>2"
proof -
  define q where "q = v div z"
  define n where "n = (q + z) div 2"
  have vq: "v < (q + 1) * z"
    using assms unfolding q_def
    using int_div_less_iff [of z v "v div z + 1"] by simp
  have n2: "q + z + 1 \<le> 2 * (n + 1)"
    unfolding n_def by presburger
  have q0: "0 \<le> q" unfolding q_def using assms by (simp add: pos_imp_zdiv_nonneg_iff)
  have "4 * ((q + 1) * z) \<le> (q + z + 1)\<^sup>2"
  proof -
    have "(q + z + 1)\<^sup>2 - 4 * ((q + 1) * z) = (q + 1 - z)\<^sup>2"
      by (simp add: power2_eq_square algebra_simps)
    moreover have "0 \<le> (q + 1 - z)\<^sup>2" by simp
    ultimately show ?thesis by linarith
  qed
  also have "\<dots> \<le> (2 * (n + 1))\<^sup>2"
    using n2 q0 assms by (intro power_mono) linarith+
  also have "\<dots> = 4 * (n + 1)\<^sup>2" by (simp add: power2_eq_square algebra_simps)
  finally have "(q + 1) * z \<le> (n + 1)\<^sup>2" by linarith
  with vq show ?thesis unfolding n_def q_def by linarith
qed

lemma newton_step_neg:
  assumes "0 \<le> v" "y < 0"
  shows "newton_step v y = - ((v div (- y) + (- y)) div 2)"
proof -
  have a: "bigint_div v y = - (v div (- y))"
    using assms by (rule bigint_div_neg_divisor)
  have "0 \<le> v div (- y)" using assms by (simp add: pos_imp_zdiv_nonneg_iff)
  then have "bigint_div v y + y \<le> 0" using a assms by linarith
  then have "bigint_div (bigint_div v y + y) 2 = - ((- (bigint_div v y + y)) div 2)"
    by (rule bigint_div_neg_dividend) simp
  then show ?thesis unfolding newton_step_def a by simp
qed

lemma newton_step_neg_value:
  assumes "v < 0" "y < 0"
  shows "y \<le> newton_step v y"
proof -
  have a: "bigint_div v y = (- v) div (- y)"
    using assms by (intro bigint_div_neg_neg) simp_all
  have q: "0 \<le> bigint_div v y" unfolding a using assms by (simp add: neg_imp_zdiv_nonneg_iff)
  show ?thesis
  proof (cases "bigint_div v y + y \<le> 0")
    case True
    then have "bigint_div (bigint_div v y + y) 2 = - ((- (bigint_div v y + y)) div 2)"
      by (rule bigint_div_neg_dividend) simp
    then show ?thesis unfolding newton_step_def using q assms by linarith
  next
    case False
    then have "bigint_div (bigint_div v y + y) 2 = (bigint_div v y + y) div 2"
      by (intro bigint_div_nonneg) simp_all
    then show ?thesis unfolding newton_step_def using False assms by linarith
  qed
qed

lemma newton_no_third_climb:
  fixes v z :: int
  assumes v: "0 \<le> v" and z: "0 < z"
    and z1: "z < (v div z + z) div 2"
    and z2: "(v div z + z) div 2 < (v div ((v div z + z) div 2) + (v div z + z) div 2) div 2"
  shows "(v div ((v div ((v div z + z) div 2) + (v div z + z) div 2) div 2)
          + (v div ((v div z + z) div 2) + (v div z + z) div 2) div 2) div 2
        \<le> (v div ((v div z + z) div 2) + (v div z + z) div 2) div 2"
proof -
  define a where "a = (v div z + z) div 2"
  define b where "b = (v div a + a) div 2"
  have ab: "a < b" "z < a" using z1 z2 unfolding a_def b_def by simp_all
  have "v < (a + 1)\<^sup>2" unfolding a_def using v z by (rule newton_AM_GM)
  also have "\<dots> \<le> b\<^sup>2" using ab z by (intro power_mono) linarith+
  finally have vb: "v < b * b" by (simp add: power2_eq_square)
  have b0: "0 < b" using ab z by linarith
  have "v div b < b" using vb b0
    by (simp add: int_div_less_iff)
  then have "(v div b + b) div 2 \<le> b" by linarith
  then show ?thesis unfolding a_def b_def .
qed

lemma spec_mulDivCeil_div: "spec_mulDivCeil a b d = - ((- (a * b)) div d)"
  unfolding spec_mulDivCeil_def by (rule ceiling_divide_eq_div)

lemma spec_mulDivFloor_div: "spec_mulDivFloor a b d = (a * b) div d"
  unfolding spec_mulDivFloor_def by (rule floor_divide_of_int_eq)

lemma andThen_simps [simp]:
  "andThen (Inl e) f = Inl e"
  "andThen (Inr v) f = f v"
  by (simp_all add: andThen_def)

lemma andThen_eq_Inr_iff:
  "andThen r f = Inr y \<longleftrightarrow> (\<exists>v. r = Inr v \<and> f v = Inr y)"
  by (cases r) simp_all

lemma bigint_div_mult_self:
  assumes "b \<noteq> 0"
  shows "bigint_div (a * b) b = a"
proof -
  have "\<bar>a * b\<bar> div \<bar>b\<bar> = \<bar>a\<bar>" using assms by (simp add: abs_mult)
  moreover have "sgn (a * b) * sgn b = sgn a"
  proof -
    have "sgn b * sgn b = 1" using assms by (cases "0 < b") simp_all
    then show ?thesis by (simp add: sgn_mult mult.assoc)
  qed
  ultimately show ?thesis unfolding bigint_div_def by (simp add: mult_sgn_abs)
qed

lemma bigint_div_zero [simp]: "bigint_div 0 b = 0"
  by (simp add: bigint_div_def)

lemma bigint_rem_nonneg: "0 \<le> p \<Longrightarrow> 0 < d \<Longrightarrow> bigint_rem p d = p mod d"
  by (cases "p = 0") (simp_all add: bigint_rem_def)

lemma bigint_rem_neg_dividend: "p < 0 \<Longrightarrow> 0 < d \<Longrightarrow> bigint_rem p d = - ((- p) mod d)"
  by (simp add: bigint_rem_def)

lemma mulDivRoundingUp_pos:
  assumes "0 < d"
  shows "mulDivRoundingUp a b d = Inr (spec_mulDivCeil a b d)"
proof (cases "0 \<le> a * b")
  case True
  have q: "bigint_div (a * b) d = (a * b) div d"
    using True assms by (rule bigint_div_nonneg)
  have r: "bigint_rem (a * b) d = (a * b) mod d"
    using True assms by (rule bigint_rem_nonneg)
  have m: "0 \<le> (a * b) mod d" using assms by simp
  have "- ((- (a * b)) div d) = (if (a * b) mod d = 0 then (a * b) div d else (a * b) div d + 1)"
    using assms by (simp add: zdiv_zminus1_eq_if)
  then show ?thesis
    using assms m unfolding mulDivRoundingUp_def Let_def q r spec_mulDivCeil_div
    by (auto simp: less_le)
next
  case False
  then have neg: "a * b \<le> 0" "a * b < 0" by simp_all
  have q: "bigint_div (a * b) d = - ((- (a * b)) div d)"
    using neg(1) assms by (rule bigint_div_neg_dividend)
  have "0 \<le> (- (a * b)) mod d" using assms by simp
  then have r: "\<not> 0 < bigint_rem (a * b) d"
    unfolding bigint_rem_neg_dividend [OF neg(2) assms] by linarith
  show ?thesis
    using assms r unfolding mulDivRoundingUp_def Let_def q spec_mulDivCeil_div by simp
qed

lemma mulDiv_nonneg:
  assumes "0 \<le> a * b" "0 < d"
  shows "mulDiv a b d = Inr (spec_mulDivFloor a b d)"
  using assms by (simp add: mulDiv_def bigint_div_nonneg spec_mulDivFloor_div)

lemma mulDiv_ok: "d \<noteq> 0 \<Longrightarrow> mulDiv a b d = Inr (bigint_div (a * b) d)"
  by (simp add: mulDiv_def)

lemma mulDiv_zero: "d \<noteq> 0 \<Longrightarrow> mulDiv 0 b d = Inr 0"
  by (simp add: mulDiv_def)

lemma mulDiv_by_zero: "mulDiv a b 0 = Inl RangeError"
  by (simp add: mulDiv_def)

section \<open>The square-root loop terminates\<close>

text \<open>
  From a positive \<open>y\<close> the values of \<open>x\<close> decrease and stay positive until the loop
  leaves the positive integers; from a negative \<open>y\<close> the loop makes at most two more
  steps.
\<close>

lemma newton_neg_chain:
  assumes y: "y < 0" and c1: "newton_step v y < y"
    and c2: "newton_step v (newton_step v y) < newton_step v y"
  shows "\<not> newton_step v (newton_step v (newton_step v y)) < newton_step v (newton_step v y)"
proof -
  have v: "0 \<le> v"
    using newton_step_neg_value [of v y] y c1 by linarith
  define z where "z = - y"
  define a where "a = (v div z + z) div 2"
  define b where "b = (v div a + a) div 2"
  have z0: "0 < z" using y by (simp add: z_def)
  have s1: "newton_step v y = - a"
    using newton_step_neg [OF v y] by (simp add: a_def z_def)
  have za: "z < a" using c1 s1 by (simp add: z_def)
  have a0: "- a < 0" using za z0 by linarith
  have s2: "newton_step v (- a) = - b"
    using newton_step_neg [OF v a0] by (simp add: b_def)
  have ab: "a < b" using c2 s1 s2 by simp
  have b0: "- b < 0" using ab a0 by linarith
  have s3: "newton_step v (- b) = - ((v div b + b) div 2)"
    using newton_step_neg [OF v b0] by simp
  have "(v div b + b) div 2 \<le> b"
    using newton_no_third_climb [OF v z0] za ab unfolding a_def b_def by blast
  then show ?thesis unfolding s1 s2 s3 by linarith
qed

termination sqrt_loop
proof (relation "measure sqrt_loop_measure")
  show "wf (measure sqrt_loop_measure)" by simp
next
  fix v x y :: int
  assume a: "y < x" "y \<noteq> 0"
  define y1 where "y1 = newton_step v y"
  have "sqrt_loop_measure (v, y, y1) < sqrt_loop_measure (v, x, y)"
  proof (cases "0 < y")
    case True
    have "sqrt_loop_measure (v, y, y1) \<le> nat y + 2"
      using True by (auto simp: sqrt_loop_measure_def)
    moreover have "sqrt_loop_measure (v, x, y) = nat y + 3"
      using True a by (simp add: sqrt_loop_measure_def)
    ultimately show ?thesis by linarith
  next
    case False
    then have y: "y < 0" using a by linarith
    show ?thesis
    proof (cases "y1 < y")
      case False
      then show ?thesis using y a by (simp add: sqrt_loop_measure_def y1_def)
    next
      case True
      then have y1: "y1 < 0" "y1 \<noteq> 0" using y by linarith+
      show ?thesis
      proof (cases "newton_step v y1 < y1")
        case False
        then show ?thesis using y a True y1 by (simp add: sqrt_loop_measure_def y1_def)
      next
        case c2: True
        have "\<not> newton_step v (newton_step v y1) < newton_step v y1"
          using newton_neg_chain [OF y] True c2 unfolding y1_def by blast
        then show ?thesis using y a True y1 c2 by (simp add: sqrt_loop_measure_def y1_def)
      qed
    qed
  qed
  then show "((v, y, newton_step v y), (v, x, y)) \<in> measure sqrt_loop_measure"
    by (simp add: y1_def)
qed

declare sqrt_loop.simps [simp del]

section \<open>The integer square root\<close>

text \<open>
  On a positive \<open>v\<close> the loop keeps \<open>x\<close> positive with \<open>v < (x + 1)\<^sup>2\<close>, and \<open>y\<close> is the
  Newton step from \<open>x\<close>; it stops at the first \<open>x\<close> with \<open>x\<^sup>2 \<le> v\<close>.
\<close>

lemma newton_step_pos:
  assumes "0 \<le> v" "0 < y"
  shows "newton_step v y = (v div y + y) div 2"
proof -
  have a: "bigint_div v y = v div y"
    using assms by (rule bigint_div_nonneg)
  have "0 \<le> v div y" using assms by (simp add: pos_imp_zdiv_nonneg_iff)
  then have "0 \<le> bigint_div v y + y" using a assms by linarith
  then have "bigint_div (bigint_div v y + y) 2 = (bigint_div v y + y) div 2"
    by (rule bigint_div_nonneg) simp
  then show ?thesis unfolding newton_step_def a .
qed

lemma sqrt_loop_correct:
  assumes "0 < v" "0 < x" "v < (x + 1)\<^sup>2"
  shows "\<exists>r. sqrt_loop v x (newton_step v x) = Inr r \<and> 0 < r \<and> r\<^sup>2 \<le> v \<and> v < (r + 1)\<^sup>2"
  using assms
proof (induction "nat x" arbitrary: x rule: less_induct)
  case less
  define y where "y = newton_step v x"
  have y_eq: "y = (v div x + x) div 2"
    unfolding y_def using less.prems by (simp add: newton_step_pos)
  have q1: "1 \<le> v div x \<or> 2 \<le> x"
    using less.prems int_le_div_iff [of x 1 v] by linarith
  have q0: "0 \<le> v div x" using less.prems by (simp add: pos_imp_zdiv_nonneg_iff)
  have y_pos: "0 < y" unfolding y_eq using q1 q0 less.prems by linarith
  have y_up: "v < (y + 1)\<^sup>2"
    unfolding y_eq using less.prems by (intro newton_AM_GM) simp_all
  show ?case
  proof (cases "y < x")
    case True
    have "nat y < nat x" using True y_pos by simp
    from less.hyps [OF this less.prems(1) y_pos y_up]
    obtain r where r: "sqrt_loop v y (newton_step v y) = Inr r" "0 < r" "r\<^sup>2 \<le> v" "v < (r + 1)\<^sup>2"
      by blast
    have "sqrt_loop v x y = sqrt_loop v y (newton_step v y)"
      using True y_pos by (subst sqrt_loop.simps) simp
    then show ?thesis using r by (simp add: y_def)
  next
    case False
    have "x \<le> v div x" using False unfolding y_eq by linarith
    then have "x * x \<le> v" using less.prems by (simp add: int_le_div_iff)
    moreover have "sqrt_loop v x y = Inr x"
      using False by (subst sqrt_loop.simps) simp
    ultimately show ?thesis using less.prems by (simp add: y_def power2_eq_square)
  qed
qed

lemma sqrt_bigint_first_step:
  assumes "0 < v"
  shows "bigint_div (v + 1) 2 = newton_step v v"
proof -
  have "newton_step v v = (v div v + v) div 2"
    using assms by (simp add: newton_step_pos)
  moreover have "bigint_div (v + 1) 2 = (v + 1) div 2"
    using assms by (intro bigint_div_nonneg) simp_all
  ultimately show ?thesis using assms by (simp add: add.commute)
qed

lemma floor_sqrt_unique:
  fixes r s v :: int
  assumes "0 \<le> r" "r\<^sup>2 \<le> v" "v < (r + 1)\<^sup>2" "0 \<le> s" "s\<^sup>2 \<le> v" "v < (s + 1)\<^sup>2"
  shows "r = s"
proof (rule ccontr)
  assume "r \<noteq> s"
  then consider "r + 1 \<le> s" | "s + 1 \<le> r" by linarith
  then show False
  proof cases
    case 1
    then have "(r + 1)\<^sup>2 \<le> s\<^sup>2" using assms by (intro power_mono) simp_all
    then show False using assms by linarith
  next
    case 2
    then have "(s + 1)\<^sup>2 \<le> r\<^sup>2" using assms by (intro power_mono) simp_all
    then show False using assms by linarith
  qed
qed

lemma sqrt_bigint_floor:
  assumes "0 \<le> v"
  shows "\<exists>r. sqrt_bigint v = Inr r \<and> 0 \<le> r \<and> r\<^sup>2 \<le> v \<and> v < (r + 1)\<^sup>2"
proof (cases "v = 0")
  case True
  then show ?thesis by (simp add: sqrt_bigint_def)
next
  case False
  then have v: "0 < v" using assms by simp
  have "v < (v + 1)\<^sup>2"
  proof -
    have "0 \<le> v * v" by simp
    moreover have "(v + 1)\<^sup>2 = v * v + 2 * v + 1"
      by (simp add: power2_eq_square algebra_simps)
    ultimately show ?thesis using v by linarith
  qed
  from sqrt_loop_correct [OF v v this] obtain r
    where "sqrt_loop v v (newton_step v v) = Inr r" "0 < r" "r\<^sup>2 \<le> v" "v < (r + 1)\<^sup>2"
    by blast
  then show ?thesis using v False
    by (simp add: sqrt_bigint_def sqrt_bigint_first_step)
qed

text \<open>
  Claim C6. For every non-negative \<open>v\<close> the square root helper of V2 returns (the loop
  is a total function and the result is a value, not an error) the \<open>r \<ge> 0\<close> with
  \<open>r\<^sup>2 \<le> v < (r + 1)\<^sup>2\<close>; it returns 0 for \<open>v = 0\<close> and the exact root of a perfect
  square.
\<close>

theorem sqrt_bigint_is_floor_sqrt:
  assumes "0 \<le> v"
  shows "\<exists>r. sqrt_bigint v = Inr r \<and> 0 \<le> r \<and> r\<^sup>2 \<le> v \<and> v < (r + 1)\<^sup>2
            \<and> (v = 0 \<longrightarrow> r = 0) \<and> (\<forall>n. 0 \<le> n \<and> v = n\<^sup>2 \<longrightarrow> r = n)"
proof -
  from sqrt_bigint_floor [OF assms] obtain r
    where r: "sqrt_bigint v = Inr r" "0 \<le> r" "r\<^sup>2 \<le> v" "v < (r + 1)\<^sup>2" by blast
  have "r = n" if "0 \<le> n" "v = n\<^sup>2" for n
  proof (rule floor_sqrt_unique [OF r(2-4) that(1)])
    show "n\<^sup>2 \<le> v" using that by simp
    show "v < (n + 1)\<^sup>2" using that by (simp add: power2_eq_square algebra_simps)
  qed
  moreover have "v = 0 \<longrightarrow> r = 0" using r by (auto simp: sqrt_bigint_def)
  ultimately show ?thesis using r by blast
qed

theorem sqrt_bigint_is_floor_sqrt_witness:
  "sqrt_bigint 10 = Inr 3 \<and> sqrt_bigint 16 = Inr 4 \<and> sqrt_bigint 0 = Inr 0"
  using sqrt_bigint_is_floor_sqrt [of 10] sqrt_bigint_is_floor_sqrt [of 16]
    sqrt_bigint_is_floor_sqrt [of 0]
  by (simp add: sqrt_bigint_def sqrt_loop.simps newton_step_def bigint_div_def)

section \<open>Reference vectors\<close>

lemmas v1_eval = BrownFiPoolMath_swapExactOutput_def mulDivRoundingUp_def andThen_def
  bigint_div_def bigint_rem_def Q128_def FEE_DENOMINATOR_def Let_def

lemmas v2_eval = BrownFiV2PoolMath_swapExactInput_def BrownFiV2PoolMath_swapExactOutput_def
  BrownFiV2PoolMath_spotPriceWithoutFee_def skewedPrices_def getSkewnessPrice_def
  mulDiv_def andThen_def bigint_div_def Q64_def PRECISION_def DECIMALS_def
  parseRawToDefaultDecimals_def parseDefaultDecimalsToRaw_def Let_def number_div_def

lemma v1_vector_output_zeroToOne:
  "BrownFiPoolMath_swapExactOutput v1_reference_pool True 10000000000000000000
     = Inr 5277044854881266492"
  by (simp add: v1_eval v1_reference_pool_def)

lemma v1_vector_output_oneToZero:
  "BrownFiPoolMath_swapExactOutput v1_reference_pool False 10000000000000000000
     = Inr 22284122562674094710"
  by (simp add: v1_eval v1_reference_pool_def)

lemma v2_vector_input_zeroToOne:
  "BrownFiV2PoolMath_swapExactInput v2_reference_pool True 10000000000000000000
     = Inr 18140589569160997731"
  by (simp add: v2_eval v2_reference_pool_def)

lemma v2_vector_input_oneToZero:
  "BrownFiV2PoolMath_swapExactInput v2_reference_pool False 10000000000000000000
     = Inr 4750593824228028503"
  by (simp add: v2_eval v2_reference_pool_def)

lemma v2_vector_output_zeroToOne:
  "BrownFiV2PoolMath_swapExactOutput v2_reference_pool True 10000000000000000000
     = Inr 5276315789473684210"
  by (simp add: v2_eval v2_reference_pool_def)

lemma v2_vector_output_oneToZero:
  "BrownFiV2PoolMath_swapExactOutput v2_reference_pool False 10000000000000000000
     = Inr 22277777777777777776"
  by (simp add: v2_eval v2_reference_pool_def)

lemma v2_vector_spot_zeroToOne:
  "BrownFiV2PoolMath_spotPriceWithoutFee v2_reference_pool True = Inr (Num 2)"
  by (simp add: v2_eval v2_reference_pool_def)

lemma v2_vector_spot_oneToZero:
  "BrownFiV2PoolMath_spotPriceWithoutFee v2_reference_pool False = Inr (Num (1 / 2))"
  by (simp add: v2_eval v2_reference_pool_def)

text \<open>
  Claim C1. On the V1 reference pool \<^verbatim>\<open>swapExactOutput\<close> of \<open>10e18\<close> returns
  5277044854881266492 (zeroToOne) and 22284122562674094710 (oneToZero). On the V2
  reference pool \<^verbatim>\<open>swapExactInput\<close> of \<open>10e18\<close> returns 18140589569160997731 and
  4750593824228028503, \<^verbatim>\<open>swapExactOutput\<close> returns 5276315789473684210 and
  22277777777777777776, and the spot price is 2 and 1/2. Both spot prices, and the two
  bigints they are the quotient of (\<open>2\<^sup>6\<^sup>5\<close> and \<open>2\<^sup>6\<^sup>4\<close>), are binary64 values, so the
  exact quotient is the value the source computes.
\<close>

theorem reference_vectors:
  "BrownFiPoolMath_swapExactOutput v1_reference_pool True 10000000000000000000
     = Inr 5277044854881266492
   \<and> BrownFiPoolMath_swapExactOutput v1_reference_pool False 10000000000000000000
     = Inr 22284122562674094710
   \<and> BrownFiV2PoolMath_swapExactInput v2_reference_pool True 10000000000000000000
     = Inr 18140589569160997731
   \<and> BrownFiV2PoolMath_swapExactInput v2_reference_pool False 10000000000000000000
     = Inr 4750593824228028503
   \<and> BrownFiV2PoolMath_swapExactOutput v2_reference_pool True 10000000000000000000
     = Inr 5276315789473684210
   \<and> BrownFiV2PoolMath_swapExactOutput v2_reference_pool False 10000000000000000000
     = Inr 22277777777777777776
   \<and> BrownFiV2PoolMath_spotPriceWithoutFee v2_reference_pool True = Inr (Num 2)
   \<and> BrownFiV2PoolMath_spotPriceWithoutFee v2_reference_pool False = Inr (Num (1 / 2))"
  using v1_vector_output_zeroToOne v1_vector_output_oneToZero
    v2_vector_input_zeroToOne v2_vector_input_oneToZero
    v2_vector_output_zeroToOne v2_vector_output_oneToZero
    v2_vector_spot_zeroToOne v2_vector_spot_oneToZero
  by blast

section \<open>V1 quote by input\<close>

text \<open>
  Claim C8. \<^verbatim>\<open>swapExactInput\<close> of V1 returns the amount it is given, for every pool,
  direction and amount (zero and negative amounts too), and never fails.
\<close>

theorem v1_swapExactInput_identity:
  "BrownFiPoolMath_swapExactInput pool zeroToOne amountIn = Inr amountIn"
  by (simp add: BrownFiPoolMath_swapExactInput_def)

section \<open>The errors of the quoting functions\<close>

lemma fails_only_with_simps [simp]:
  "fails_only_with E (Inr v)"
  "fails_only_with E (Inl e) \<longleftrightarrow> e \<in> E"
  by (simp_all add: fails_only_with_def)

lemma fails_only_with_andThen:
  assumes "fails_only_with E r" "\<And>v. fails_only_with E (f v)"
  shows "fails_only_with E (andThen r f)"
  using assms by (cases r) simp_all

lemma fails_only_withD: "fails_only_with E r \<Longrightarrow> e \<notin> E \<Longrightarrow> r \<noteq> Inl e"
  by (cases r) auto

lemma fails_only_with_mulDiv [simp]:
  "RangeError \<in> E \<Longrightarrow> fails_only_with E (mulDiv a b d)"
  by (simp add: mulDiv_def)

lemma fails_only_with_mulDivRoundingUp [simp]:
  "RangeError \<in> E \<Longrightarrow> fails_only_with E (mulDivRoundingUp a b d)"
  by (simp add: mulDivRoundingUp_def Let_def)

lemma fails_only_with_sqrt_loop:
  "RangeError \<in> E \<Longrightarrow> fails_only_with E (sqrt_loop v x y)"
proof (induction v x y rule: sqrt_loop.induct)
  case (1 v x y)
  show ?case
  proof (cases "y < x \<and> y \<noteq> 0")
    case True
    then have "sqrt_loop v x y = sqrt_loop v y (newton_step v y)"
      by (subst sqrt_loop.simps) simp
    then show ?thesis using 1 True by simp
  next
    case False
    then show ?thesis using 1(2) by (subst sqrt_loop.simps) auto
  qed
qed

lemma fails_only_with_sqrt_bigint [simp]:
  "RangeError \<in> E \<Longrightarrow> fails_only_with E (sqrt_bigint v)"
  by (simp add: sqrt_bigint_def fails_only_with_sqrt_loop)

lemma fails_only_with_getSkewnessPrice [simp]:
  "RangeError \<in> E \<Longrightarrow>
   fails_only_with E (getSkewnessPrice priceA priceB reserveA reserveB lam)"
  unfolding getSkewnessPrice_def Let_def
  by (simp add: fails_only_with_andThen)

lemma fails_only_with_skewedPrices [simp]:
  "RangeError \<in> E \<Longrightarrow> fails_only_with E (skewedPrices pool zeroToOne)"
  by (simp add: skewedPrices_def)

lemma fails_only_with_computeLeftSqrt [simp]:
  "RangeError \<in> E \<Longrightarrow>
   fails_only_with E (computeLeftSqrt amountIn priceIn priceOut reserveOut)"
  unfolding computeLeftSqrt_def Let_def
  by (simp add: fails_only_with_andThen)

lemma fails_only_with_computeRightSqrt [simp]:
  "RangeError \<in> E \<Longrightarrow>
   fails_only_with E (computeRightSqrt amountIn priceIn priceOut reserveOut k)"
  unfolding computeRightSqrt_def
  by (simp add: fails_only_with_andThen)

text \<open>The errors each curve function can fail with.\<close>

lemma v1_swapExactOutput_errors:
  "fails_only_with {INSUFFICIENT_OUTPUT_AMOUNT, INSUFFICIENT_LIQUIDITY, RangeError}
     (BrownFiPoolMath_swapExactOutput pool zeroToOne amountOut)"
  unfolding BrownFiPoolMath_swapExactOutput_def Let_def
  by (simp add: fails_only_with_andThen)

lemma v1_swapExactOutput_after_cap:
  "fails_only_with {RangeError}
     (andThen (mulDivRoundingUp k w (reserveOut - w))
        (\<lambda>r. if zeroToOne then
                andThen (mulDivRoundingUp (Q128 * 2 + r) Q128 (oPrice * 2))
                  (\<lambda>avgPrice. mulDivRoundingUp w avgPrice Q128)
              else
                andThen (mulDivRoundingUp oPrice (Q128 * 2 + r) (Q128 * 2))
                  (\<lambda>avgPrice. mulDivRoundingUp w avgPrice Q128)))"
  by (simp add: fails_only_with_andThen)

lemma v2_swapExactInput_valid:
  assumes "0 < amountIn" "0 < (if zeroToOne then reserve1 pool else reserve0 pool)"
  shows "fails_only_with {RangeError} (BrownFiV2PoolMath_swapExactInput pool zeroToOne amountIn)"
  using assms unfolding BrownFiV2PoolMath_swapExactInput_def Let_def
  by (simp add: fails_only_with_andThen split_beta not_le)

lemma v2_swapExactOutput_valid:
  assumes "0 < amountOut" "0 < (if zeroToOne then reserve1 pool else reserve0 pool)"
    "amountOut * 10 < (if zeroToOne then reserve1 pool else reserve0 pool) * 8"
  shows "fails_only_with {RangeError} (BrownFiV2PoolMath_swapExactOutput pool zeroToOne amountOut)"
  using assms unfolding BrownFiV2PoolMath_swapExactOutput_def Let_def
  by (simp add: fails_only_with_andThen split_beta not_le)

section \<open>The price-skew adjuster\<close>

text \<open>
  Claim C7, as stated, fails: with both notional values zero (an empty pool) and
  \<open>lambda \<noteq> 0\<close> the notional values are balanced, and the divisor of the skew is their
  sum, which is zero.
\<close>

theorem skew_balanced_counterexample:
  "(0::int) * Q64 = 0 * Q64 \<and> getSkewnessPrice Q64 Q64 0 0 1 = Inl RangeError"
  by (simp add: getSkewnessPrice_def mulDiv_def Let_def)

text \<open>
  Claim C7, amended. The adjuster returns the prices unchanged when \<open>lambda = 0\<close>, and for
  every \<open>lambda\<close> when the notional values are balanced and their sum is not zero; when
  they are balanced with sum zero and \<open>lambda \<noteq> 0\<close> it fails with a division by zero.
\<close>

theorem skew_unchanged:
  "(lam = 0 \<longrightarrow> getSkewnessPrice priceA priceB reserveA reserveB lam = Inr (priceA, priceB))
   \<and> (reserveA * priceA = reserveB * priceB \<and> reserveA * priceA + reserveB * priceB \<noteq> 0
        \<longrightarrow> getSkewnessPrice priceA priceB reserveA reserveB lam = Inr (priceA, priceB))
   \<and> (reserveA * priceA = reserveB * priceB \<and> reserveA * priceA + reserveB * priceB = 0
        \<and> lam \<noteq> 0
        \<longrightarrow> getSkewnessPrice priceA priceB reserveA reserveB lam = Inl RangeError)"
proof (intro conjI impI)
  assume "lam = 0"
  then show "getSkewnessPrice priceA priceB reserveA reserveB lam = Inr (priceA, priceB)"
    by (simp add: getSkewnessPrice_def)
next
  assume a: "reserveA * priceA = reserveB * priceB
             \<and> reserveA * priceA + reserveB * priceB \<noteq> 0"
  have q: "Q64 \<noteq> 0" by (simp add: Q64_def)
  have "reserveA * priceA + reserveB * priceB \<noteq> 0" using a by blast
  then have s: "mulDiv 0 lam (reserveA * priceA + reserveB * priceB) = Inr 0"
    by (rule mulDiv_zero)
  have p: "mulDiv p Q64 Q64 = Inr p" for p
    using q by (simp add: mulDiv_def bigint_div_mult_self)
  show "getSkewnessPrice priceA priceB reserveA reserveB lam = Inr (priceA, priceB)"
  proof (cases "lam = 0")
    case True
    then show ?thesis by (simp add: getSkewnessPrice_def)
  next
    case False
    have "reserveA * priceA - reserveB * priceB = 0" using a by simp
    then show ?thesis
      using False a s p unfolding getSkewnessPrice_def Let_def by simp
  qed
next
  assume a: "reserveA * priceA = reserveB * priceB
             \<and> reserveA * priceA + reserveB * priceB = 0 \<and> lam \<noteq> 0"
  then have sum0: "reserveA * priceA + reserveB * priceB = 0" and "lam \<noteq> 0"
    by blast+
  then show "getSkewnessPrice priceA priceB reserveA reserveB lam = Inl RangeError"
    unfolding getSkewnessPrice_def Let_def sum0 by (simp add: mulDiv_by_zero)
qed

theorem skew_unchanged_witness:
  "getSkewnessPrice 7 9 3 4 0 = Inr (7, 9)
   \<and> getSkewnessPrice (2 * Q64) Q64 100 200 5 = Inr (2 * Q64, Q64)
   \<and> getSkewnessPrice 1 1 0 0 5 = Inl RangeError"
  using skew_unchanged [of 0 7 9 3 4] skew_unchanged [of 5 "2 * Q64" Q64 100 200]
    skew_unchanged [of 5 1 1 0 0]
  by (simp add: Q64_def)

section \<open>The divisor of the price impact\<close>

lemma parseRaw_le_18:
  "tokenDecimals \<le> 18 \<Longrightarrow>
   parseRawToDefaultDecimals tokenDecimals amount = amount * 10 ^ nat (18 - tokenDecimals)"
  by (simp add: parseRawToDefaultDecimals_def DECIMALS_def)

text \<open>
  Once its validations have passed, \<^verbatim>\<open>swapExactOutput\<close> of V2 adjusts the prices and then
  divides by \<open>Q64 * (parsedReserveOut - parsedAmountOut)\<close>, both rescaled with the decimals
  of the output token.
\<close>

lemma v2_swapExactOutput_after_validation:
  assumes "0 < amountOut" "0 < (if zeroToOne then reserve1 pool else reserve0 pool)"
    "amountOut * 10 < (if zeroToOne then reserve1 pool else reserve0 pool) * 8"
  shows "BrownFiV2PoolMath_swapExactOutput pool zeroToOne amountOut =
     andThen (skewedPrices pool zeroToOne)
       (\<lambda>(priceIn, priceOut).
         andThen
           (mulDiv (kappa pool * Q64)
              (parseRawToDefaultDecimals
                 (if zeroToOne then token1Decimals pool else token0Decimals pool) amountOut)
              (Q64 * (parseRawToDefaultDecimals
                        (if zeroToOne then token1Decimals pool else token0Decimals pool)
                        (if zeroToOne then reserve1 pool else reserve0 pool)
                      - parseRawToDefaultDecimals
                          (if zeroToOne then token1Decimals pool else token0Decimals pool)
                          amountOut)))
           (\<lambda>priceImpact.
             andThen (mulDiv priceOut (priceImpact + Q64 * 2) priceIn)
               (\<lambda>inner.
                 andThen
                   (mulDiv
                      (parseRawToDefaultDecimals
                         (if zeroToOne then token1Decimals pool else token0Decimals pool)
                         amountOut)
                      inner (Q64 * 2))
                   (\<lambda>amountIn.
                     andThen (mulDiv amountIn (PRECISION + fee pool) PRECISION)
                       (\<lambda>amountIn'.
                         Inr (parseDefaultDecimalsToRaw
                                (if zeroToOne then token0Decimals pool else token1Decimals pool)
                                amountIn'))))))"
  using assms unfolding BrownFiV2PoolMath_swapExactOutput_def Let_def
  by (simp add: not_le)

text \<open>
  Claim C10. For a V2 pool whose output token has at most 18 decimals, when the
  validations of \<^verbatim>\<open>swapExactOutput\<close> pass (positive amount, positive reserve of the output
  token, less than 80 percent on the raw amounts): the rescaled reserve exceeds the
  rescaled amount; the divisor of the price impact is positive; \<^verbatim>\<open>swapExactOutput\<close> is the
  rest of its computation with the price impact equal to the quotient by that divisor,
  so that this division does not fail; and it returns a value whenever the price
  adjustment returns prices with \<open>priceIn \<noteq> 0\<close>. With 19 decimals the checks do not imply
  this: amount 1 and reserve 2 pass the validations, both rescale to 0, the price
  adjustment returns prices, and \<^verbatim>\<open>swapExactOutput\<close> fails with a division by zero.
\<close>

theorem price_impact_denominator_positive:
  "((if zeroToOne then token1Decimals pool else token0Decimals pool) \<le> 18
     \<and> 0 < amountOut
     \<and> 0 < (if zeroToOne then reserve1 pool else reserve0 pool)
     \<and> amountOut * 10 < (if zeroToOne then reserve1 pool else reserve0 pool) * 8
    \<longrightarrow>
      parseRawToDefaultDecimals
          (if zeroToOne then token1Decimals pool else token0Decimals pool) amountOut
        < parseRawToDefaultDecimals
            (if zeroToOne then token1Decimals pool else token0Decimals pool)
            (if zeroToOne then reserve1 pool else reserve0 pool)
      \<and> 0 < Q64 * (parseRawToDefaultDecimals
                      (if zeroToOne then token1Decimals pool else token0Decimals pool)
                      (if zeroToOne then reserve1 pool else reserve0 pool)
                    - parseRawToDefaultDecimals
                        (if zeroToOne then token1Decimals pool else token0Decimals pool)
                        amountOut)
      \<and> BrownFiV2PoolMath_swapExactOutput pool zeroToOne amountOut =
          andThen (skewedPrices pool zeroToOne)
            (\<lambda>(priceIn, priceOut).
              andThen
                (mulDiv priceOut
                   (bigint_div
                      (kappa pool * Q64
                       * parseRawToDefaultDecimals
                           (if zeroToOne then token1Decimals pool else token0Decimals pool)
                           amountOut)
                      (Q64 * (parseRawToDefaultDecimals
                                (if zeroToOne then token1Decimals pool else token0Decimals pool)
                                (if zeroToOne then reserve1 pool else reserve0 pool)
                              - parseRawToDefaultDecimals
                                  (if zeroToOne then token1Decimals pool
                                   else token0Decimals pool)
                                  amountOut))
                    + Q64 * 2)
                   priceIn)
                (\<lambda>inner.
                  andThen
                    (mulDiv
                       (parseRawToDefaultDecimals
                          (if zeroToOne then token1Decimals pool else token0Decimals pool)
                          amountOut)
                       inner (Q64 * 2))
                    (\<lambda>amountIn.
                      andThen (mulDiv amountIn (PRECISION + fee pool) PRECISION)
                        (\<lambda>amountIn'.
                          Inr (parseDefaultDecimalsToRaw
                                 (if zeroToOne then token0Decimals pool else token1Decimals pool)
                                 amountIn')))))
      \<and> (\<forall>priceIn priceOut.
            skewedPrices pool zeroToOne = Inr (priceIn, priceOut) \<and> priceIn \<noteq> 0
            \<longrightarrow> (\<exists>r. BrownFiV2PoolMath_swapExactOutput pool zeroToOne amountOut = Inr r)))
   \<and> (18 < token1Decimals (v2_reference_pool\<lparr>reserve1 := 2, token1Decimals := 19\<rparr>)
        \<and> (0::int) < 1
        \<and> 0 < reserve1 (v2_reference_pool\<lparr>reserve1 := 2, token1Decimals := 19\<rparr>)
        \<and> (1::int) * 10
            < reserve1 (v2_reference_pool\<lparr>reserve1 := 2, token1Decimals := 19\<rparr>) * 8
        \<and> parseRawToDefaultDecimals 19 1 = parseRawToDefaultDecimals 19 2
        \<and> skewedPrices (v2_reference_pool\<lparr>reserve1 := 2, token1Decimals := 19\<rparr>) True
            = Inr (2 * Q64, Q64)
        \<and> BrownFiV2PoolMath_swapExactOutput
             (v2_reference_pool\<lparr>reserve1 := 2, token1Decimals := 19\<rparr>) True 1
            = Inl RangeError)"
proof (intro conjI impI allI)
  define dOut where "dOut = (if zeroToOne then token1Decimals pool else token0Decimals pool)"
  define dIn where "dIn = (if zeroToOne then token0Decimals pool else token1Decimals pool)"
  define reserveOut where "reserveOut = (if zeroToOne then reserve1 pool else reserve0 pool)"
  define pa where "pa = parseRawToDefaultDecimals dOut amountOut"
  define pr where "pr = parseRawToDefaultDecimals dOut reserveOut"
  assume "(if zeroToOne then token1Decimals pool else token0Decimals pool) \<le> 18
     \<and> 0 < amountOut
     \<and> 0 < (if zeroToOne then reserve1 pool else reserve0 pool)
     \<and> amountOut * 10 < (if zeroToOne then reserve1 pool else reserve0 pool) * 8"
  then have a: "dOut \<le> 18" "0 < amountOut" "0 < reserveOut" "amountOut * 10 < reserveOut * 8"
    by (simp_all add: dOut_def reserveOut_def)
  then have lt: "amountOut < reserveOut" by linarith
  have pos: "(0::int) < 10 ^ nat (18 - dOut)" by simp
  have c1: "pa < pr"
    unfolding pa_def pr_def using a(1) lt pos by (simp add: parseRaw_le_18)
  have q: "(0::int) < Q64" by (simp add: Q64_def)
  then have c2: "0 < Q64 * (pr - pa)" using c1 by simp
  then have nz: "Q64 * (pr - pa) \<noteq> 0" by linarith
  have pim: "mulDiv (kappa pool * Q64) pa (Q64 * (pr - pa))
      = Inr (bigint_div (kappa pool * Q64 * pa) (Q64 * (pr - pa)))"
    using nz by (rule mulDiv_ok)
  have u: "BrownFiV2PoolMath_swapExactOutput pool zeroToOne amountOut =
     andThen (skewedPrices pool zeroToOne)
       (\<lambda>(priceIn, priceOut).
         andThen (mulDiv (kappa pool * Q64) pa (Q64 * (pr - pa)))
           (\<lambda>priceImpact.
             andThen (mulDiv priceOut (priceImpact + Q64 * 2) priceIn)
               (\<lambda>inner.
                 andThen (mulDiv pa inner (Q64 * 2))
                   (\<lambda>amountIn.
                     andThen (mulDiv amountIn (PRECISION + fee pool) PRECISION)
                       (\<lambda>amountIn'. Inr (parseDefaultDecimalsToRaw dIn amountIn'))))))"
    using v2_swapExactOutput_after_validation [of amountOut zeroToOne pool] a(2-4)
    unfolding pa_def pr_def dOut_def dIn_def reserveOut_def by simp
  have v: "BrownFiV2PoolMath_swapExactOutput pool zeroToOne amountOut =
     andThen (skewedPrices pool zeroToOne)
       (\<lambda>(priceIn, priceOut).
         andThen
           (mulDiv priceOut
              (bigint_div (kappa pool * Q64 * pa) (Q64 * (pr - pa)) + Q64 * 2) priceIn)
           (\<lambda>inner.
             andThen (mulDiv pa inner (Q64 * 2))
               (\<lambda>amountIn.
                 andThen (mulDiv amountIn (PRECISION + fee pool) PRECISION)
                   (\<lambda>amountIn'. Inr (parseDefaultDecimalsToRaw dIn amountIn')))))"
    unfolding u pim by simp
  show "parseRawToDefaultDecimals
          (if zeroToOne then token1Decimals pool else token0Decimals pool) amountOut
        < parseRawToDefaultDecimals
            (if zeroToOne then token1Decimals pool else token0Decimals pool)
            (if zeroToOne then reserve1 pool else reserve0 pool)"
    using c1 unfolding pa_def pr_def dOut_def reserveOut_def .
  show "0 < Q64 * (parseRawToDefaultDecimals
                      (if zeroToOne then token1Decimals pool else token0Decimals pool)
                      (if zeroToOne then reserve1 pool else reserve0 pool)
                    - parseRawToDefaultDecimals
                        (if zeroToOne then token1Decimals pool else token0Decimals pool)
                        amountOut)"
    using c2 unfolding pa_def pr_def dOut_def reserveOut_def .
  show "BrownFiV2PoolMath_swapExactOutput pool zeroToOne amountOut =
          andThen (skewedPrices pool zeroToOne)
            (\<lambda>(priceIn, priceOut).
              andThen
                (mulDiv priceOut
                   (bigint_div
                      (kappa pool * Q64
                       * parseRawToDefaultDecimals
                           (if zeroToOne then token1Decimals pool else token0Decimals pool)
                           amountOut)
                      (Q64 * (parseRawToDefaultDecimals
                                (if zeroToOne then token1Decimals pool else token0Decimals pool)
                                (if zeroToOne then reserve1 pool else reserve0 pool)
                              - parseRawToDefaultDecimals
                                  (if zeroToOne then token1Decimals pool
                                   else token0Decimals pool)
                                  amountOut))
                    + Q64 * 2)
                   priceIn)
                (\<lambda>inner.
                  andThen
                    (mulDiv
                       (parseRawToDefaultDecimals
                          (if zeroToOne then token1Decimals pool else token0Decimals pool)
                          amountOut)
                       inner (Q64 * 2))
                    (\<lambda>amountIn.
                      andThen (mulDiv amountIn (PRECISION + fee pool) PRECISION)
                        (\<lambda>amountIn'.
                          Inr (parseDefaultDecimalsToRaw
                                 (if zeroToOne then token0Decimals pool else token1Decimals pool)
                                 amountIn')))))"
    using v unfolding pa_def pr_def dOut_def dIn_def reserveOut_def .
  fix priceIn priceOut
  assume "skewedPrices pool zeroToOne = Inr (priceIn, priceOut) \<and> priceIn \<noteq> 0"
  then have s: "skewedPrices pool zeroToOne = Inr (priceIn, priceOut)" and p: "priceIn \<noteq> 0"
    by blast+
  have q2: "Q64 * 2 \<noteq> 0" using q by simp
  have P: "PRECISION \<noteq> 0" by (simp add: PRECISION_def)
  show "\<exists>r. BrownFiV2PoolMath_swapExactOutput pool zeroToOne amountOut = Inr r"
    unfolding v s using p q2 P by (simp add: mulDiv_ok)
next
  show "parseRawToDefaultDecimals 19 1 = parseRawToDefaultDecimals 19 2"
    by (simp add: parseRawToDefaultDecimals_def DECIMALS_def bigint_div_def)
  show "skewedPrices (v2_reference_pool\<lparr>reserve1 := 2, token1Decimals := 19\<rparr>) True
            = Inr (2 * Q64, Q64)"
    by (simp add: skewedPrices_def getSkewnessPrice_def v2_reference_pool_def)
  show "BrownFiV2PoolMath_swapExactOutput
             (v2_reference_pool\<lparr>reserve1 := 2, token1Decimals := 19\<rparr>) True 1
            = Inl RangeError"
    by (simp add: v2_eval v2_reference_pool_def)
qed (simp_all add: v2_reference_pool_def)

theorem price_impact_denominator_positive_witness:
  "parseRawToDefaultDecimals 6 10000000 < parseRawToDefaultDecimals 6 200000000
   \<and> BrownFiV2PoolMath_swapExactOutput
        (v2_reference_pool\<lparr>reserve1 := 200000000, token1Decimals := 6\<rparr>) True 10000000
       = Inr 5276315789473684210"
proof -
  have h: "(if True then token1Decimals (v2_reference_pool\<lparr>reserve1 := 200000000, token1Decimals := 6\<rparr>)
            else token0Decimals (v2_reference_pool\<lparr>reserve1 := 200000000, token1Decimals := 6\<rparr>)) \<le> 18
     \<and> (0::int) < 10000000
     \<and> 0 < (if True then reserve1 (v2_reference_pool\<lparr>reserve1 := 200000000, token1Decimals := 6\<rparr>)
              else reserve0 (v2_reference_pool\<lparr>reserve1 := 200000000, token1Decimals := 6\<rparr>))
     \<and> 10000000 * 10
         < (if True then reserve1 (v2_reference_pool\<lparr>reserve1 := 200000000, token1Decimals := 6\<rparr>)
            else reserve0 (v2_reference_pool\<lparr>reserve1 := 200000000, token1Decimals := 6\<rparr>)) * 8"
    by (simp add: v2_reference_pool_def)
  note t = price_impact_denominator_positive
    [of True "v2_reference_pool\<lparr>reserve1 := 200000000, token1Decimals := 6\<rparr>" 10000000,
     THEN conjunct1, THEN mp, OF h]
  have "parseRawToDefaultDecimals 6 10000000 < parseRawToDefaultDecimals 6 200000000"
    using t [THEN conjunct1] by (simp add: v2_reference_pool_def)
  moreover have "skewedPrices (v2_reference_pool\<lparr>reserve1 := 200000000, token1Decimals := 6\<rparr>)
      True = Inr (2 * Q64, Q64) \<and> 2 * Q64 \<noteq> 0"
    by (simp add: skewedPrices_def getSkewnessPrice_def v2_reference_pool_def Q64_def)
  then have "\<exists>r. BrownFiV2PoolMath_swapExactOutput
        (v2_reference_pool\<lparr>reserve1 := 200000000, token1Decimals := 6\<rparr>) True 10000000 = Inr r"
    using t [THEN conjunct2, THEN conjunct2, THEN conjunct2] by blast
  moreover have "BrownFiV2PoolMath_swapExactOutput
        (v2_reference_pool\<lparr>reserve1 := 200000000, token1Decimals := 6\<rparr>) True 10000000
       = Inr 5276315789473684210"
    by (simp add: v2_eval v2_reference_pool_def)
  ultimately show ?thesis by blast
qed

section \<open>The reserve-fraction caps\<close>

lemma v1_swapExactOutput_unfold:
  assumes "0 < amountOut" "0 < reserve0 pool" "0 < reserve1 pool" "fee_v1 pool < 10000"
  shows "BrownFiPoolMath_swapExactOutput pool zeroToOne amountOut =
     (let reserveOut = (if zeroToOne then reserve1 pool else reserve0 pool);
          w = spec_mulDivCeil amountOut 10000 (10000 - fee_v1 pool);
          k = (if kappa_v1 pool = 0 then Q128 else kappa_v1 pool)
      in if w * 10 \<ge> reserveOut * 9 then Inl INSUFFICIENT_OUTPUT_AMOUNT
         else
           andThen (mulDivRoundingUp k w (reserveOut - w))
             (\<lambda>r. if zeroToOne then
                andThen (mulDivRoundingUp (Q128 * 2 + r) Q128 (oraclePrice pool * 2))
                  (\<lambda>avgPrice. mulDivRoundingUp w avgPrice Q128)
              else
                andThen (mulDivRoundingUp (oraclePrice pool) (Q128 * 2 + r) (Q128 * 2))
                  (\<lambda>avgPrice. mulDivRoundingUp w avgPrice Q128)))"
proof -
  have "0 < 10000 - fee_v1 pool" using assms by simp
  then have "mulDivRoundingUp amountOut 10000 (10000 - fee_v1 pool)
     = Inr (spec_mulDivCeil amountOut 10000 (10000 - fee_v1 pool))"
    by (rule mulDivRoundingUp_pos)
  then show ?thesis
    using assms unfolding BrownFiPoolMath_swapExactOutput_def FEE_DENOMINATOR_def Let_def
    by (simp add: not_le)
qed

lemma v1_never_max80:
  "BrownFiPoolMath_swapExactOutput pool zeroToOne amountOut \<noteq> Inl MAX_80_PERCENT_OF_RESERVE"
  by (rule fails_only_withD [OF v1_swapExactOutput_errors]) simp

text \<open>
  Claim C4, as stated, fails for a fee above 10000: the divisor \<open>10000 - fee\<close> is negative,
  \<^verbatim>\<open>mulDivRoundingUp\<close> is then not the ceiling (here it gives 1 where the ceiling of
  \<open>-1/2\<close> is 0), and the quote is rejected although the stated threshold is not reached.
\<close>

theorem reserve_cap_counterexample:
  "0 < reserve0 (v1_reference_pool\<lparr>reserve0 := 1, reserve1 := 1, fee_v1 := 30000\<rparr>)
   \<and> 0 < reserve1 (v1_reference_pool\<lparr>reserve0 := 1, reserve1 := 1, fee_v1 := 30000\<rparr>)
   \<and> (0::int) < 1
   \<and> BrownFiPoolMath_swapExactOutput
        (v1_reference_pool\<lparr>reserve0 := 1, reserve1 := 1, fee_v1 := 30000\<rparr>) True 1
       = Inl INSUFFICIENT_OUTPUT_AMOUNT
   \<and> \<not> (spec_mulDivCeil 1 10000 (10000 - 30000) * 10 \<ge> 1 * 9)"
  by (simp add: v1_eval v1_reference_pool_def spec_mulDivCeil_div)

text \<open>
  Claim C4, amended. For positive reserves and a positive amount: with a V1 fee below 10000,
  V1 \<^verbatim>\<open>swapExactOutput\<close> fails with \<open>INSUFFICIENT_OUTPUT_AMOUNT\<close> exactly when
  \<open>amountOutWithFee * 10 \<ge> reserveOut * 9\<close>, where \<open>amountOutWithFee\<close> is the ceiling of
  \<open>amountOut * 10000 / (10000 - fee)\<close>, and it never fails with
  \<open>MAX_80_PERCENT_OF_RESERVE\<close>; V2 \<^verbatim>\<open>swapExactOutput\<close> fails with
  \<open>MAX_80_PERCENT_OF_RESERVE\<close> exactly when \<open>amountOut * 10 \<ge> reserveOut * 8\<close> on the raw
  amounts, and never with \<open>INSUFFICIENT_OUTPUT_AMOUNT\<close>.
\<close>

theorem reserve_cap_rejection:
  "(0 < reserve0 pool1 \<and> 0 < reserve1 pool1 \<and> 0 < amountOut \<and> fee_v1 pool1 < 10000 \<longrightarrow>
      (BrownFiPoolMath_swapExactOutput pool1 zeroToOne amountOut = Inl INSUFFICIENT_OUTPUT_AMOUNT
        \<longleftrightarrow> spec_mulDivCeil amountOut 10000 (10000 - fee_v1 pool1) * 10
              \<ge> (if zeroToOne then reserve1 pool1 else reserve0 pool1) * 9))
   \<and> BrownFiPoolMath_swapExactOutput pool1 zeroToOne amountOut \<noteq> Inl MAX_80_PERCENT_OF_RESERVE
   \<and> (0 < reserve0 pool2 \<and> 0 < reserve1 pool2 \<and> 0 < amountOut \<longrightarrow>
      (BrownFiV2PoolMath_swapExactOutput pool2 zeroToOne amountOut = Inl MAX_80_PERCENT_OF_RESERVE
        \<longleftrightarrow> amountOut * 10 \<ge> (if zeroToOne then reserve1 pool2 else reserve0 pool2) * 8)
      \<and> BrownFiV2PoolMath_swapExactOutput pool2 zeroToOne amountOut
          \<noteq> Inl INSUFFICIENT_OUTPUT_AMOUNT)"
proof (intro conjI impI)
  assume a: "0 < reserve0 pool1 \<and> 0 < reserve1 pool1 \<and> 0 < amountOut \<and> fee_v1 pool1 < 10000"
  define reserveOut where "reserveOut = (if zeroToOne then reserve1 pool1 else reserve0 pool1)"
  define w where "w = spec_mulDivCeil amountOut 10000 (10000 - fee_v1 pool1)"
  define k where "k = (if kappa_v1 pool1 = 0 then Q128 else kappa_v1 pool1)"
  have u: "BrownFiPoolMath_swapExactOutput pool1 zeroToOne amountOut =
      (if w * 10 \<ge> reserveOut * 9 then Inl INSUFFICIENT_OUTPUT_AMOUNT
       else andThen (mulDivRoundingUp k w (reserveOut - w))
             (\<lambda>r. if zeroToOne then
                andThen (mulDivRoundingUp (Q128 * 2 + r) Q128 (oraclePrice pool1 * 2))
                  (\<lambda>avgPrice. mulDivRoundingUp w avgPrice Q128)
              else
                andThen (mulDivRoundingUp (oraclePrice pool1) (Q128 * 2 + r) (Q128 * 2))
                  (\<lambda>avgPrice. mulDivRoundingUp w avgPrice Q128)))"
    using a v1_swapExactOutput_unfold [of amountOut pool1 zeroToOne]
    unfolding reserveOut_def w_def k_def Let_def by blast
  show "BrownFiPoolMath_swapExactOutput pool1 zeroToOne amountOut = Inl INSUFFICIENT_OUTPUT_AMOUNT
        \<longleftrightarrow> spec_mulDivCeil amountOut 10000 (10000 - fee_v1 pool1) * 10
              \<ge> (if zeroToOne then reserve1 pool1 else reserve0 pool1) * 9"
  proof (cases "w * 10 \<ge> reserveOut * 9")
    case True
    then show ?thesis using u unfolding w_def reserveOut_def by simp
  next
    case False
    have "fails_only_with {RangeError} (BrownFiPoolMath_swapExactOutput pool1 zeroToOne amountOut)"
      unfolding u using False v1_swapExactOutput_after_cap [of k w reserveOut zeroToOne "oraclePrice pool1"]
      by simp
    then have "BrownFiPoolMath_swapExactOutput pool1 zeroToOne amountOut \<noteq> Inl INSUFFICIENT_OUTPUT_AMOUNT"
      by (rule fails_only_withD) simp
    then show ?thesis using False unfolding w_def reserveOut_def by simp
  qed
next
  show "BrownFiPoolMath_swapExactOutput pool1 zeroToOne amountOut \<noteq> Inl MAX_80_PERCENT_OF_RESERVE"
    by (rule v1_never_max80)
next
  assume a: "0 < reserve0 pool2 \<and> 0 < reserve1 pool2 \<and> 0 < amountOut"
  define reserveOut where "reserveOut = (if zeroToOne then reserve1 pool2 else reserve0 pool2)"
  have r: "0 < reserveOut" using a by (simp add: reserveOut_def)
  show "BrownFiV2PoolMath_swapExactOutput pool2 zeroToOne amountOut = Inl MAX_80_PERCENT_OF_RESERVE
        \<longleftrightarrow> amountOut * 10 \<ge> (if zeroToOne then reserve1 pool2 else reserve0 pool2) * 8"
  proof (cases "amountOut * 10 \<ge> reserveOut * 8")
    case True
    then show ?thesis
      using a r unfolding BrownFiV2PoolMath_swapExactOutput_def Let_def reserveOut_def
      by (simp add: not_le)
  next
    case False
    then have "fails_only_with {RangeError} (BrownFiV2PoolMath_swapExactOutput pool2 zeroToOne amountOut)"
      using a r unfolding reserveOut_def by (intro v2_swapExactOutput_valid) simp_all
    then have "BrownFiV2PoolMath_swapExactOutput pool2 zeroToOne amountOut \<noteq> Inl MAX_80_PERCENT_OF_RESERVE"
      by (rule fails_only_withD) simp
    then show ?thesis using False unfolding reserveOut_def by simp
  qed
  show "BrownFiV2PoolMath_swapExactOutput pool2 zeroToOne amountOut \<noteq> Inl INSUFFICIENT_OUTPUT_AMOUNT"
  proof (cases "amountOut * 10 \<ge> reserveOut * 8")
    case True
    then show ?thesis
      using a r unfolding BrownFiV2PoolMath_swapExactOutput_def Let_def reserveOut_def
      by (simp add: not_le)
  next
    case False
    then have "fails_only_with {RangeError} (BrownFiV2PoolMath_swapExactOutput pool2 zeroToOne amountOut)"
      using a r unfolding reserveOut_def by (intro v2_swapExactOutput_valid) simp_all
    then show ?thesis by (rule fails_only_withD) simp
  qed
qed

theorem reserve_cap_rejection_witness:
  "BrownFiPoolMath_swapExactOutput v1_reference_pool True 180000000000000000000
     = Inl INSUFFICIENT_OUTPUT_AMOUNT
   \<and> BrownFiV2PoolMath_swapExactOutput v2_reference_pool True 180000000000000000000
     = Inl MAX_80_PERCENT_OF_RESERVE"
  using reserve_cap_rejection
    [of v1_reference_pool 180000000000000000000 True v2_reference_pool]
  by (simp add: v1_reference_pool_def v2_reference_pool_def spec_mulDivCeil_div)

section \<open>V1 quote by output\<close>

lemma Q128_pos: "0 < Q128"
  by (simp add: Q128_def)

lemma v1_swapExactOutput_value:
  assumes "0 < reserve0 pool" "0 < reserve1 pool" "fee_v1 pool < 10000" "0 < amountOut"
    and cap: "spec_mulDivCeil amountOut 10000 (10000 - fee_v1 pool) * 10
              < (if zeroToOne then reserve1 pool else reserve0 pool) * 9"
    and price: "zeroToOne \<longrightarrow> 0 < oraclePrice pool"
  shows "BrownFiPoolMath_swapExactOutput pool zeroToOne amountOut
         = Inr (spec_v1_quoteByOutput pool zeroToOne amountOut)"
proof -
  define reserveOut where "reserveOut = (if zeroToOne then reserve1 pool else reserve0 pool)"
  define w where "w = spec_mulDivCeil amountOut 10000 (10000 - fee_v1 pool)"
  define k where "k = (if kappa_v1 pool = 0 then Q128 else kappa_v1 pool)"
  define r where "r = spec_mulDivCeil k w (reserveOut - w)"
  have rpos: "0 < reserveOut" using assms by (simp add: reserveOut_def)
  have capw: "w * 10 < reserveOut * 9" using cap by (simp add: w_def reserveOut_def)
  then have d1: "0 < reserveOut - w" using rpos by linarith
  have u: "BrownFiPoolMath_swapExactOutput pool zeroToOne amountOut =
       andThen (mulDivRoundingUp k w (reserveOut - w))
             (\<lambda>r. if zeroToOne then
                andThen (mulDivRoundingUp (Q128 * 2 + r) Q128 (oraclePrice pool * 2))
                  (\<lambda>avgPrice. mulDivRoundingUp w avgPrice Q128)
              else
                andThen (mulDivRoundingUp (oraclePrice pool) (Q128 * 2 + r) (Q128 * 2))
                  (\<lambda>avgPrice. mulDivRoundingUp w avgPrice Q128))"
    using assms(1-4) capw v1_swapExactOutput_unfold [of amountOut pool zeroToOne]
    unfolding reserveOut_def w_def k_def Let_def by (simp add: not_le)
  have s1: "mulDivRoundingUp k w (reserveOut - w) = Inr r"
    unfolding r_def using d1 by (rule mulDivRoundingUp_pos)
  have s3: "mulDivRoundingUp w p Q128 = Inr (spec_mulDivCeil w p Q128)" for p
    using Q128_pos by (rule mulDivRoundingUp_pos)
  show ?thesis
  proof (cases zeroToOne)
    case True
    then have "0 < oraclePrice pool * 2" using price by simp
    then have s2: "mulDivRoundingUp (Q128 * 2 + r) Q128 (oraclePrice pool * 2)
        = Inr (spec_mulDivCeil (Q128 * 2 + r) Q128 (oraclePrice pool * 2))"
      by (rule mulDivRoundingUp_pos)
    show ?thesis
      unfolding u s1 using True s2 s3
      by (simp add: spec_v1_quoteByOutput_def Let_def r_def k_def w_def reserveOut_def
          mult.commute)
  next
    case False
    have "0 < Q128 * 2" using Q128_pos by simp
    then have s2: "mulDivRoundingUp (oraclePrice pool) (Q128 * 2 + r) (Q128 * 2)
        = Inr (spec_mulDivCeil (oraclePrice pool) (Q128 * 2 + r) (Q128 * 2))"
      by (rule mulDivRoundingUp_pos)
    show ?thesis
      unfolding u s1 using False s2 s3
      by (simp add: spec_v1_quoteByOutput_def Let_def r_def k_def w_def reserveOut_def
          mult.commute)
  qed
qed

text \<open>
  Claim C3, as stated, fails for the direction zeroToOne when the oracle price is zero (the
  value the state provider falls back to): the average price divides by \<open>oraclePrice * 2\<close>
  and the quote fails with a division by zero.
\<close>

theorem v1_quoteByOutput_ceil_counterexample:
  "0 < reserve0 (v1_reference_pool\<lparr>oraclePrice := 0\<rparr>)
   \<and> 0 < reserve1 (v1_reference_pool\<lparr>oraclePrice := 0\<rparr>)
   \<and> fee_v1 (v1_reference_pool\<lparr>oraclePrice := 0\<rparr>) < 10000
   \<and> (0::int) < 10000000000000000000
   \<and> spec_mulDivCeil 10000000000000000000 10000
         (10000 - fee_v1 (v1_reference_pool\<lparr>oraclePrice := 0\<rparr>)) * 10
       < reserve1 (v1_reference_pool\<lparr>oraclePrice := 0\<rparr>) * 9
   \<and> BrownFiPoolMath_swapExactOutput (v1_reference_pool\<lparr>oraclePrice := 0\<rparr>) True
         10000000000000000000 = Inl RangeError"
  by (simp add: v1_eval v1_reference_pool_def spec_mulDivCeil_div)

text \<open>
  Claim C3, amended. For positive reserves, a fee below 10000, a positive amount with
  \<open>amountOutWithFee * 10 < reserveOut * 9\<close> and, for the direction zeroToOne, a positive
  oracle price, V1 \<^verbatim>\<open>swapExactOutput\<close> returns the stated value, in which every division
  is a ceiling.
\<close>

theorem v1_quoteByOutput_ceil:
  assumes "0 < reserve0 pool" "0 < reserve1 pool" "fee_v1 pool < 10000" "0 < amountOut"
    and "spec_mulDivCeil amountOut 10000 (10000 - fee_v1 pool) * 10
              < (if zeroToOne then reserve1 pool else reserve0 pool) * 9"
    and "zeroToOne \<longrightarrow> 0 < oraclePrice pool"
  shows "BrownFiPoolMath_swapExactOutput pool zeroToOne amountOut
         = Inr (spec_v1_quoteByOutput pool zeroToOne amountOut)"
  using assms by (rule v1_swapExactOutput_value)

theorem v1_quoteByOutput_ceil_witness:
  "BrownFiPoolMath_swapExactOutput v1_reference_pool True 10000000000000000000
     = Inr (spec_v1_quoteByOutput v1_reference_pool True 10000000000000000000)
   \<and> spec_v1_quoteByOutput v1_reference_pool True 10000000000000000000
     = 5277044854881266492"
  using v1_quoteByOutput_ceil [of v1_reference_pool 10000000000000000000 True]
  by (simp add: v1_reference_pool_def spec_v1_quoteByOutput_def spec_mulDivCeil_div Q128_def)

section \<open>V2 quote by input\<close>

lemma spec_isqrtFloor_eq:
  assumes "0 \<le> r" "r\<^sup>2 \<le> v" "v < (r + 1)\<^sup>2"
  shows "spec_isqrtFloor v = r"
  unfolding spec_isqrtFloor_def
proof (rule floor_unique)
  have "(real_of_int r)\<^sup>2 \<le> real_of_int v"
    using assms(2) by (metis of_int_le_iff of_int_power)
  then show "real_of_int r \<le> sqrt (real_of_int v)"
    by (rule real_le_rsqrt)
  have "real_of_int v < (real_of_int r + 1)\<^sup>2"
    using assms(3) by (metis of_int_less_iff of_int_power of_int_add of_int_1)
  moreover have "0 \<le> real_of_int r + 1" using assms(1) by simp
  ultimately show "sqrt (real_of_int v) < real_of_int r + 1"
    by (metis real_less_lsqrt of_int_0_le_iff le_less_trans not_le real_sqrt_ge_zero real_sqrt_le_iff real_sqrt_abs abs_of_nonneg real_sqrt_less_iff)
qed

lemma sqrt_bigint_spec:
  assumes "0 \<le> v"
  shows "sqrt_bigint v = Inr (spec_isqrtFloor v)"
proof -
  from sqrt_bigint_floor [OF assms] obtain r
    where r: "sqrt_bigint v = Inr r" "0 \<le> r" "r\<^sup>2 \<le> v" "v < (r + 1)\<^sup>2" by blast
  then show ?thesis by (simp add: spec_isqrtFloor_eq)
qed

lemma parseRaw_nonneg:
  assumes "0 \<le> a"
  shows "parseRawToDefaultDecimals d a = spec_toCanonicalScale d a"
    and "0 \<le> spec_toCanonicalScale d a"
proof -
  have p: "(0::int) < 10 ^ n" for n by simp
  show "parseRawToDefaultDecimals d a = spec_toCanonicalScale d a"
    using assms p
    by (simp add: parseRawToDefaultDecimals_def spec_toCanonicalScale_def DECIMALS_def
        bigint_div_nonneg)
  show "0 \<le> spec_toCanonicalScale d a"
    using assms p by (simp add: spec_toCanonicalScale_def pos_imp_zdiv_nonneg_iff)
qed

lemma parseDefault_nonneg:
  assumes "0 \<le> a"
  shows "parseDefaultDecimalsToRaw d a = spec_fromCanonicalScale d a"
proof -
  have p: "(0::int) < 10 ^ n" for n by simp
  show ?thesis
    using assms p
    by (simp add: parseDefaultDecimalsToRaw_def spec_fromCanonicalScale_def DECIMALS_def
        bigint_div_nonneg)
qed

lemma Q64_pos: "0 < Q64"
  by (simp add: Q64_def)

lemma spec_mulDivFloor_nonneg: "0 \<le> a * b \<Longrightarrow> 0 < d \<Longrightarrow> 0 \<le> spec_mulDivFloor a b d"
  by (simp add: spec_mulDivFloor_div pos_imp_zdiv_nonneg_iff)

lemma int_div_le_bound:
  fixes a b q :: int
  assumes "0 < b" "a \<le> q * b"
  shows "a div b \<le> q"
proof -
  have "a div b \<le> (q * b) div b" using assms by (intro zdiv_mono1) simp_all
  then show ?thesis using assms by simp
qed

lemma getSkewnessPrice_spec:
  assumes "0 \<le> priceA" "0 \<le> priceB" "0 \<le> reserveA" "0 \<le> reserveB"
    and "0 \<le> lam" "lam \<le> Q64"
    and "lam \<noteq> 0 \<longrightarrow> reserveA * priceA + reserveB * priceB \<noteq> 0"
  shows "getSkewnessPrice priceA priceB reserveA reserveB lam
           = Inr (spec_skewAdjust priceA priceB reserveA reserveB lam)"
    and "0 \<le> fst (spec_skewAdjust priceA priceB reserveA reserveB lam)"
    and "0 \<le> snd (spec_skewAdjust priceA priceB reserveA reserveB lam)"
proof -
  define vA where "vA = reserveA * priceA"
  define vB where "vB = reserveB * priceB"
  define s where "s = spec_mulDivFloor \<bar>vA - vB\<bar> lam (vA + vB)"
  have v0: "0 \<le> vA" "0 \<le> vB" using assms by (simp_all add: vA_def vB_def)
  have all: "getSkewnessPrice priceA priceB reserveA reserveB lam
           = Inr (spec_skewAdjust priceA priceB reserveA reserveB lam)
         \<and> 0 \<le> fst (spec_skewAdjust priceA priceB reserveA reserveB lam)
         \<and> 0 \<le> snd (spec_skewAdjust priceA priceB reserveA reserveB lam)"
  proof (cases "lam = 0")
    case True
    then show ?thesis using assms by (simp add: getSkewnessPrice_def spec_skewAdjust_def)
  next
    case False
    then have sum: "0 < vA + vB" using assms(7) v0 by (simp add: vA_def vB_def)
    have d0: "0 \<le> \<bar>vA - vB\<bar> * lam" using assms(5) by simp
    have ms: "mulDiv \<bar>vA - vB\<bar> lam (vA + vB) = Inr s"
      unfolding s_def using d0 sum by (rule mulDiv_nonneg)
    have s0: "0 \<le> s" unfolding s_def using d0 sum by (rule spec_mulDivFloor_nonneg)
    have "\<bar>vA - vB\<bar> \<le> vA + vB" using v0 by linarith
    then have "\<bar>vA - vB\<bar> * lam \<le> lam * (vA + vB)"
      using assms(5) by (simp add: mult.commute mult_left_mono)
    then have "s \<le> lam"
      unfolding s_def spec_mulDivFloor_div using sum by (intro int_div_le_bound) simp_all
    then have sQ: "0 \<le> Q64 - s" "0 \<le> Q64 + s" using assms(6) s0 Q64_pos by linarith+
    have m: "mulDiv p t Q64 = Inr (spec_mulDivFloor p t Q64) \<and> 0 \<le> spec_mulDivFloor p t Q64"
      if "0 \<le> p" "0 \<le> t" for p t
      using that Q64_pos by (simp add: mulDiv_nonneg spec_mulDivFloor_nonneg)
    have diff: "(if vB \<le> vA then vA - vB else vB - vA) = \<bar>vA - vB\<bar>" by simp
    show ?thesis
      using False ms m [OF assms(1) sQ(1)] m [OF assms(1) sQ(2)]
        m [OF assms(2) sQ(1)] m [OF assms(2) sQ(2)]
      unfolding getSkewnessPrice_def spec_skewAdjust_def Let_def
        vA_def [symmetric] vB_def [symmetric] diff s_def [symmetric]
      by simp
  qed
  show "getSkewnessPrice priceA priceB reserveA reserveB lam
           = Inr (spec_skewAdjust priceA priceB reserveA reserveB lam)"
    and "0 \<le> fst (spec_skewAdjust priceA priceB reserveA reserveB lam)"
    and "0 \<le> snd (spec_skewAdjust priceA priceB reserveA reserveB lam)"
    using all by blast+
qed

lemma sqrt_bigint_eq:
  assumes "0 \<le> r" "r\<^sup>2 \<le> v" "v < (r + 1)\<^sup>2"
  shows "sqrt_bigint v = Inr r"
proof -
  have "0 \<le> r\<^sup>2" by simp
  then have "0 \<le> v" using assms(2) by linarith
  from sqrt_bigint_floor [OF this] obtain s
    where s: "sqrt_bigint v = Inr s" "0 \<le> s" "s\<^sup>2 \<le> v" "v < (s + 1)\<^sup>2" by blast
  then have "s = r" using assms by (intro floor_sqrt_unique [of s v r]) simp_all
  then show ?thesis using s by simp
qed

lemmas spec_v2_eval = spec_quoteByInput_def spec_reserveIn_def spec_reserveOut_def
  spec_effIn_def spec_prices_def
  spec_skewAdjust_def spec_cpDenominator_def spec_leftNumerator_def spec_leftSqrt_def
  spec_rightSqrt_def spec_denominator_def spec_notionalSum_def spec_toCanonicalScale_def
  spec_fromCanonicalScale_def spec_mulDivFloor_div Q64_def

lemmas v2_general_eval = v2_eval computeLeftSqrt_def computeRightSqrt_def
  computeLeftNumerator_def

lemma isqrt_c2_a:
  "spec_isqrtFloor 10000000000000000000368934881474191032280 = 100000000000000000001"
  by (rule spec_isqrtFloor_eq) simp_all

lemma sqrt_c2_a:
  "sqrt_bigint 10000000000000000000368934881474191032280 = Inr 100000000000000000001"
  by (rule sqrt_bigint_eq) simp_all

lemma isqrt_c2_b:
  "spec_isqrtFloor 40398007475077891306562626067675549561088 = 200992555770301829620"
  by (rule spec_isqrtFloor_eq) simp_all

text \<open>
  Claim C2, as stated, fails. The last division of the general case truncates toward zero:
  with \<open>kappa = 2 * Q64 - 2\<close>, prices \<open>Q64\<close> and \<open>Q64 - 1\<close>, no fee and an input of 1 the
  numerator is \<open>-1\<close> and the divisor 2, the code returns 0 and the floor is \<open>-1\<close>. A quote
  can fail after its validations: with both prices zero (the values the state provider
  starts from) the divisor of the constant-product case is zero. And for the direction
  oneToZero with \<open>lambda \<noteq> 0\<close> the code adjusts the prices with the reserves in the order
  (reserve0, reserve1), pairing the price of token1 with the reserve of token0: on the
  reference pool, whose notional values are balanced, with \<open>lambda = 2\<^sup>6\<^sup>3\<close> it returns
  8477339419628301270 where the stated value is 4750593824228028503.
\<close>

theorem v2_quoteByInput_floor_counterexample:
  "(0::int) < 1
   \<and> 0 < reserve0 (v2_reference_pool\<lparr>kappa := 2 * Q64 - 2, fee := 0, price0 := Q64,
                                      price1 := Q64 - 1\<rparr>)
   \<and> BrownFiV2PoolMath_swapExactInput
        (v2_reference_pool\<lparr>kappa := 2 * Q64 - 2, fee := 0, price0 := Q64, price1 := Q64 - 1\<rparr>)
        False 1 = Inr 0
   \<and> spec_quoteByInput
        (v2_reference_pool\<lparr>kappa := 2 * Q64 - 2, fee := 0, price0 := Q64, price1 := Q64 - 1\<rparr>)
        False 1 = - 1
   \<and> (0::int) < 10000000000000000000
   \<and> 0 < reserve1 (v2_reference_pool\<lparr>price0 := 0, price1 := 0\<rparr>)
   \<and> BrownFiV2PoolMath_swapExactInput (v2_reference_pool\<lparr>price0 := 0, price1 := 0\<rparr>)
        True 10000000000000000000 = Inl RangeError
   \<and> 0 < reserve0 (v2_reference_pool\<lparr>lambda := 9223372036854775808\<rparr>)
   \<and> BrownFiV2PoolMath_swapExactInput (v2_reference_pool\<lparr>lambda := 9223372036854775808\<rparr>)
        False 10000000000000000000 = Inr 8477339419628301270
   \<and> spec_quoteByInput (v2_reference_pool\<lparr>lambda := 9223372036854775808\<rparr>)
        False 10000000000000000000 = 4750593824228028503"
proof (intro conjI)
  show "BrownFiV2PoolMath_swapExactInput
        (v2_reference_pool\<lparr>kappa := 2 * Q64 - 2, fee := 0, price0 := Q64, price1 := Q64 - 1\<rparr>)
        False 1 = Inr 0"
    by (simp add: v2_general_eval v2_reference_pool_def sqrt_c2_a)
  show "spec_quoteByInput
        (v2_reference_pool\<lparr>kappa := 2 * Q64 - 2, fee := 0, price0 := Q64, price1 := Q64 - 1\<rparr>)
        False 1 = - 1"
    by (simp add: spec_v2_eval v2_reference_pool_def isqrt_c2_a)
  show "BrownFiV2PoolMath_swapExactInput (v2_reference_pool\<lparr>price0 := 0, price1 := 0\<rparr>)
        True 10000000000000000000 = Inl RangeError"
    by (simp add: v2_eval v2_reference_pool_def)
  show "BrownFiV2PoolMath_swapExactInput (v2_reference_pool\<lparr>lambda := 9223372036854775808\<rparr>)
        False 10000000000000000000 = Inr 8477339419628301270"
    by (simp add: v2_eval v2_reference_pool_def)
  show "spec_quoteByInput (v2_reference_pool\<lparr>lambda := 9223372036854775808\<rparr>)
        False 10000000000000000000 = 4750593824228028503"
    by (simp add: spec_v2_eval v2_reference_pool_def)
qed (simp_all add: v2_reference_pool_def)

lemma mulDiv_nonneg':
  assumes "0 \<le> a" "0 \<le> b" "0 < d"
  shows "mulDiv a b d = Inr (spec_mulDivFloor a b d)" and "0 \<le> spec_mulDivFloor a b d"
  using assms by (simp_all add: mulDiv_nonneg spec_mulDivFloor_nonneg)

text \<open>
  Claim C2, amended. For the direction zeroToOne, or any direction when \<open>lambda = 0\<close>: for
  a pool with non-negative reserves, prices and fee, \<open>0 \<le> kappa \<le> 2 * Q64\<close> and
  \<open>0 \<le> lambda \<le> Q64\<close>, a positive input and a positive reserve of the output token, when
  no divisor is zero (the sum of the two notional values if \<open>lambda \<noteq> 0\<close>;
  \<open>priceOut * reserveOut + effIn * priceIn\<close> if \<open>kappa = 2 * Q64\<close>; the denominator
  otherwise) and, in the general case, \<open>Q64 * isqrtFloor (leftSqrt + rightSqrt)\<close> does not
  exceed the left numerator, \<^verbatim>\<open>swapExactInput\<close> returns the stated value.
\<close>

theorem v2_quoteByInput_refines:
  assumes amt: "0 < amountIn"
    and dir: "zeroToOne \<or> lambda pool = 0"
    and rout: "0 < (if zeroToOne then reserve1 pool else reserve0 pool)"
    and rin: "0 \<le> (if zeroToOne then reserve0 pool else reserve1 pool)"
    and prices: "0 \<le> price0 pool" "0 \<le> price1 pool"
    and lam: "0 \<le> lambda pool" "lambda pool \<le> Q64"
    and fee: "0 \<le> fee pool"
    and kap: "0 \<le> kappa pool" "kappa pool \<le> 2 * Q64"
    and skew: "lambda pool \<noteq> 0 \<longrightarrow> spec_notionalSum pool zeroToOne \<noteq> 0"
    and cp: "kappa pool = 2 * Q64 \<longrightarrow> spec_cpDenominator pool zeroToOne amountIn \<noteq> 0"
    and gen: "kappa pool \<noteq> 2 * Q64 \<longrightarrow>
                spec_denominator pool zeroToOne \<noteq> 0
                \<and> Q64 * spec_isqrtFloor (spec_leftSqrt pool zeroToOne amountIn
                                          + spec_rightSqrt pool zeroToOne amountIn)
                    \<le> spec_leftNumerator pool zeroToOne amountIn"
  shows "BrownFiV2PoolMath_swapExactInput pool zeroToOne amountIn
         = Inr (spec_quoteByInput pool zeroToOne amountIn)"
proof -
  define dIn where "dIn = (if zeroToOne then token0Decimals pool else token1Decimals pool)"
  define dOut where "dOut = (if zeroToOne then token1Decimals pool else token0Decimals pool)"
  define reserveOut where "reserveOut = (if zeroToOne then reserve1 pool else reserve0 pool)"
  define pI where "pI = fst (spec_prices pool zeroToOne)"
  define pO where "pO = snd (spec_prices pool zeroToOne)"
  define R where "R = spec_reserveOut pool zeroToOne"
  define e where "e = spec_effIn pool zeroToOne amountIn"
  have r01: "0 \<le> reserve0 pool" "0 \<le> reserve1 pool"
    using rout rin by (cases zeroToOne; simp)+
  have pAB: "0 \<le> (if zeroToOne then price0 pool else price1 pool)"
    "0 \<le> (if zeroToOne then price1 pool else price0 pool)"
    using prices by simp_all
  have c0: "parseRawToDefaultDecimals (token0Decimals pool) (reserve0 pool)
        = spec_toCanonicalScale (token0Decimals pool) (reserve0 pool)"
    "0 \<le> spec_toCanonicalScale (token0Decimals pool) (reserve0 pool)"
    using parseRaw_nonneg [OF r01(1)] by simp_all
  have c1: "parseRawToDefaultDecimals (token1Decimals pool) (reserve1 pool)
        = spec_toCanonicalScale (token1Decimals pool) (reserve1 pool)"
    "0 \<le> spec_toCanonicalScale (token1Decimals pool) (reserve1 pool)"
    using parseRaw_nonneg [OF r01(2)] by simp_all
  have prices_ok: "skewedPrices pool zeroToOne = Inr (pI, pO) \<and> 0 \<le> pI \<and> 0 \<le> pO"
  proof (cases "lambda pool = 0")
    case True
    then show ?thesis
      using pAB
      by (simp add: skewedPrices_def getSkewnessPrice_def pI_def pO_def spec_prices_def
          spec_skewAdjust_def)
  next
    case False
    then have z: zeroToOne using dir by simp
    have sk: "lambda pool \<noteq> 0 \<longrightarrow>
        spec_toCanonicalScale (token0Decimals pool) (reserve0 pool) * price0 pool
        + spec_toCanonicalScale (token1Decimals pool) (reserve1 pool) * price1 pool \<noteq> 0"
      using skew z by (simp add: spec_notionalSum_def spec_reserveIn_def spec_reserveOut_def)
    note gs = getSkewnessPrice_spec [OF prices c0(2) c1(2) lam sk]
    have sp: "spec_prices pool zeroToOne
        = spec_skewAdjust (price0 pool) (price1 pool)
            (spec_toCanonicalScale (token0Decimals pool) (reserve0 pool))
            (spec_toCanonicalScale (token1Decimals pool) (reserve1 pool)) (lambda pool)"
      using z by (simp add: spec_prices_def spec_reserveIn_def spec_reserveOut_def)
    have "skewedPrices pool zeroToOne
        = getSkewnessPrice (price0 pool) (price1 pool)
            (spec_toCanonicalScale (token0Decimals pool) (reserve0 pool))
            (spec_toCanonicalScale (token1Decimals pool) (reserve1 pool)) (lambda pool)"
      using z by (simp add: skewedPrices_def c0(1) c1(1))
    then show ?thesis
      unfolding pI_def pO_def sp using gs by simp
  qed
  have sp: "skewedPrices pool zeroToOne = Inr (pI, pO)" using prices_ok by blast
  have p0: "0 \<le> pI" "0 \<le> pO" using prices_ok by blast+
  have pa: "parseRawToDefaultDecimals dIn amountIn = spec_toCanonicalScale dIn amountIn"
    "0 \<le> spec_toCanonicalScale dIn amountIn"
    using parseRaw_nonneg [of amountIn dIn] amt by simp_all
  have pr: "parseRawToDefaultDecimals dOut reserveOut = R" "0 \<le> R"
    using parseRaw_nonneg [of reserveOut dOut] rout
    unfolding R_def spec_reserveOut_def dOut_def reserveOut_def by simp_all
  have "0 < PRECISION + fee pool" using fee by (simp add: PRECISION_def)
  from mulDiv_nonneg' [OF pa(2) _ this, of PRECISION]
  have ef: "mulDiv (spec_toCanonicalScale dIn amountIn) PRECISION (PRECISION + fee pool) = Inr e"
    "0 \<le> e"
    unfolding e_def spec_effIn_def dIn_def by (simp_all add: PRECISION_def)
  have branch: "(if kappa pool = 2 * Q64 then
                       mulDiv (R * e) pI (pO * R + e * pI)
                     else
                       andThen (computeLeftSqrt e pI pO R)
                         (\<lambda>leftSqrt.
                           andThen (computeRightSqrt e pI pO R (kappa pool))
                             (\<lambda>rightSqrt.
                               andThen (mulDiv pO (2 * Q64 - kappa pool) Q64)
                                 (\<lambda>denominator.
                                   andThen (sqrt_bigint (leftSqrt + rightSqrt))
                                     (\<lambda>sqrtTerm.
                                       if denominator = 0 then Inl RangeError
                                       else Inr (bigint_div
                                                   (computeLeftNumerator e pI pO R
                                                      - Q64 * sqrtTerm)
                                                   denominator))))))
      = Inr (if kappa pool = 2 * Q64 then
          spec_mulDivFloor (R * e) pI (spec_cpDenominator pool zeroToOne amountIn)
        else
          (spec_leftNumerator pool zeroToOne amountIn
             - Q64 * spec_isqrtFloor (spec_leftSqrt pool zeroToOne amountIn
                                       + spec_rightSqrt pool zeroToOne amountIn))
          div spec_denominator pool zeroToOne)
      \<and> 0 \<le> (if kappa pool = 2 * Q64 then
          spec_mulDivFloor (R * e) pI (spec_cpDenominator pool zeroToOne amountIn)
        else
          (spec_leftNumerator pool zeroToOne amountIn
             - Q64 * spec_isqrtFloor (spec_leftSqrt pool zeroToOne amountIn
                                       + spec_rightSqrt pool zeroToOne amountIn))
          div spec_denominator pool zeroToOne)"
  proof (cases "kappa pool = 2 * Q64")
    case True
    have den: "spec_cpDenominator pool zeroToOne amountIn = pO * R + e * pI"
      by (simp add: spec_cpDenominator_def pO_def R_def e_def pI_def)
    have "0 \<le> pO * R + e * pI" using p0 pr(2) ef(2) by simp
    then have dpos: "0 < pO * R + e * pI" using cp True den by simp
    have "0 \<le> R * e" using pr(2) ef(2) by simp
    from mulDiv_nonneg' [OF this p0(1) dpos] show ?thesis
      using True den by simp
  next
    case False
    define m1 where "m1 = spec_mulDivFloor e pI Q64"
    define m2 where "m2 = spec_mulDivFloor R pO Q64"
    define k1 where "k1 = spec_mulDivFloor (pI * pO) (kappa pool) (Q64 * Q64)"
    define k2 where "k2 = spec_mulDivFloor (R * e) 2 Q64"
    define den where "den = spec_mulDivFloor pO (2 * Q64 - kappa pool) Q64"
    have q2: "0 < Q64 * Q64" using Q64_pos by simp
    have e1: "mulDiv e pI Q64 = Inr m1"
      unfolding m1_def using mulDiv_nonneg' [OF ef(2) p0(1) Q64_pos] by simp
    have e2: "mulDiv R pO Q64 = Inr m2"
      unfolding m2_def using mulDiv_nonneg' [OF pr(2) p0(2) Q64_pos] by simp
    have ls: "computeLeftSqrt e pI pO R = Inr ((m1 - m2)\<^sup>2)"
      unfolding computeLeftSqrt_def e1 e2 Let_def
      by (simp add: power2_eq_square algebra_simps)
    have "0 \<le> pI * pO" using p0 by simp
    from mulDiv_nonneg' [OF this kap(1) q2]
    have e3: "mulDiv (pI * pO) (kappa pool) (Q64 * Q64) = Inr k1" "0 \<le> k1"
      unfolding k1_def by simp_all
    have "0 \<le> R * e" using pr(2) ef(2) by simp
    from mulDiv_nonneg' [OF this _ Q64_pos, of 2]
    have e4: "mulDiv (R * e) 2 Q64 = Inr k2" "0 \<le> k2"
      unfolding k2_def by simp_all
    have rs: "computeRightSqrt e pI pO R (kappa pool) = Inr (k1 * k2)"
      unfolding computeRightSqrt_def e3(1) e4(1) by simp
    have "0 \<le> 2 * Q64 - kappa pool" using kap(2) by simp
    from mulDiv_nonneg' [OF p0(2) this Q64_pos]
    have e5: "mulDiv pO (2 * Q64 - kappa pool) Q64 = Inr den" "0 \<le> den"
      unfolding den_def by simp_all
    have sden: "spec_denominator pool zeroToOne = den"
      by (simp add: spec_denominator_def den_def pO_def)
    have sls: "spec_leftSqrt pool zeroToOne amountIn = (m1 - m2)\<^sup>2"
      by (simp add: spec_leftSqrt_def m1_def m2_def e_def pI_def pO_def R_def)
    have srs: "spec_rightSqrt pool zeroToOne amountIn = k1 * k2"
      by (simp add: spec_rightSqrt_def k1_def k2_def e_def pI_def pO_def R_def
          power2_eq_square)
    have sln: "spec_leftNumerator pool zeroToOne amountIn = computeLeftNumerator e pI pO R"
      by (simp add: spec_leftNumerator_def computeLeftNumerator_def e_def pI_def pO_def R_def)
    have arg: "0 \<le> (m1 - m2)\<^sup>2 + k1 * k2" using e3(2) e4(2) by simp
    have sq: "sqrt_bigint ((m1 - m2)\<^sup>2 + k1 * k2)
        = Inr (spec_isqrtFloor ((m1 - m2)\<^sup>2 + k1 * k2))"
      using arg by (rule sqrt_bigint_spec)
    have dpos: "0 < den" using gen False sden e5(2) by simp
    have num: "0 \<le> computeLeftNumerator e pI pO R
                  - Q64 * spec_isqrtFloor ((m1 - m2)\<^sup>2 + k1 * k2)"
      using gen False unfolding sls srs sln by simp
    have dv: "bigint_div (computeLeftNumerator e pI pO R
                  - Q64 * spec_isqrtFloor ((m1 - m2)\<^sup>2 + k1 * k2)) den
        = (computeLeftNumerator e pI pO R
                  - Q64 * spec_isqrtFloor ((m1 - m2)\<^sup>2 + k1 * k2)) div den"
      using num dpos by (rule bigint_div_nonneg)
    have "0 \<le> (computeLeftNumerator e pI pO R
                  - Q64 * spec_isqrtFloor ((m1 - m2)\<^sup>2 + k1 * k2)) div den"
      using num dpos by (simp add: pos_imp_zdiv_nonneg_iff)
    then show ?thesis
      using False dpos unfolding sden sls srs sln dv [symmetric]
      by (simp add: ls rs e5(1) sq)
  qed
  define out where "out = (if kappa pool = 2 * Q64 then
          spec_mulDivFloor (R * e) pI (spec_cpDenominator pool zeroToOne amountIn)
        else
          (spec_leftNumerator pool zeroToOne amountIn
             - Q64 * spec_isqrtFloor (spec_leftSqrt pool zeroToOne amountIn
                                       + spec_rightSqrt pool zeroToOne amountIn))
          div spec_denominator pool zeroToOne)"
  have fin: "parseDefaultDecimalsToRaw dOut out = spec_fromCanonicalScale dOut out"
    using branch unfolding out_def [symmetric] by (intro parseDefault_nonneg) simp
  have "BrownFiV2PoolMath_swapExactInput pool zeroToOne amountIn
      = Inr (parseDefaultDecimalsToRaw dOut out)"
  proof (cases "kappa pool = 2 * Q64")
    case True
    then have b: "mulDiv (R * e) pI (pO * R + e * pI) = Inr out"
      using branch by (simp add: out_def)
    show ?thesis
      using amt rout True
      unfolding BrownFiV2PoolMath_swapExactInput_def Let_def
        dIn_def [symmetric] dOut_def [symmetric] reserveOut_def [symmetric] pa(1) pr(1)
      by (simp add: sp ef(1) b not_le)
  next
    case False
    then have b: "andThen (computeLeftSqrt e pI pO R)
                         (\<lambda>leftSqrt.
                           andThen (computeRightSqrt e pI pO R (kappa pool))
                             (\<lambda>rightSqrt.
                               andThen (mulDiv pO (2 * Q64 - kappa pool) Q64)
                                 (\<lambda>denominator.
                                   andThen (sqrt_bigint (leftSqrt + rightSqrt))
                                     (\<lambda>sqrtTerm.
                                       if denominator = 0 then Inl RangeError
                                       else Inr (bigint_div
                                                   (computeLeftNumerator e pI pO R
                                                      - Q64 * sqrtTerm)
                                                   denominator))))) = Inr out"
      using branch unfolding out_def by (simp only: if_False)
    show ?thesis
      using amt rout False
      unfolding BrownFiV2PoolMath_swapExactInput_def Let_def
        dIn_def [symmetric] dOut_def [symmetric] reserveOut_def [symmetric] pa(1) pr(1)
      by (simp add: sp ef(1) b not_le)
  qed
  then show ?thesis
    unfolding fin by (simp add: spec_quoteByInput_def out_def dOut_def R_def e_def pI_def)
qed

theorem v2_quoteByInput_refines_witness:
  "BrownFiV2PoolMath_swapExactInput v2_reference_pool True 10000000000000000000
     = Inr (spec_quoteByInput v2_reference_pool True 10000000000000000000)
   \<and> spec_quoteByInput v2_reference_pool True 10000000000000000000 = 18140589569160997731
   \<and> BrownFiV2PoolMath_swapExactInput (v2_reference_pool\<lparr>kappa := Q64\<rparr>) True
        10000000000000000000
     = Inr (spec_quoteByInput (v2_reference_pool\<lparr>kappa := Q64\<rparr>) True 10000000000000000000)
   \<and> spec_quoteByInput (v2_reference_pool\<lparr>kappa := Q64\<rparr>) True 10000000000000000000
     = 18957568917977472124
   \<and> BrownFiV2PoolMath_swapExactInput
        (v2_reference_pool\<lparr>reserve0 := 150000000000000000000, lambda := 9223372036854775808\<rparr>)
        True 10000000000000000000
     = Inr (spec_quoteByInput
        (v2_reference_pool\<lparr>reserve0 := 150000000000000000000, lambda := 9223372036854775808\<rparr>)
        True 10000000000000000000)
   \<and> spec_quoteByInput
        (v2_reference_pool\<lparr>reserve0 := 150000000000000000000, lambda := 9223372036854775808\<rparr>)
        True 10000000000000000000 = 15091175854118633409"
proof (intro conjI)
  show "BrownFiV2PoolMath_swapExactInput v2_reference_pool True 10000000000000000000
     = Inr (spec_quoteByInput v2_reference_pool True 10000000000000000000)"
    by (rule v2_quoteByInput_refines) (simp_all add: spec_v2_eval v2_reference_pool_def)
  show "spec_quoteByInput v2_reference_pool True 10000000000000000000 = 18140589569160997731"
    by (simp add: spec_v2_eval v2_reference_pool_def)
  show "BrownFiV2PoolMath_swapExactInput (v2_reference_pool\<lparr>kappa := Q64\<rparr>) True
        10000000000000000000
     = Inr (spec_quoteByInput (v2_reference_pool\<lparr>kappa := Q64\<rparr>) True 10000000000000000000)"
    by (rule v2_quoteByInput_refines) (simp_all add: spec_v2_eval v2_reference_pool_def isqrt_c2_b)
  show "spec_quoteByInput (v2_reference_pool\<lparr>kappa := Q64\<rparr>) True 10000000000000000000
     = 18957568917977472124"
    by (simp add: spec_v2_eval v2_reference_pool_def isqrt_c2_b)
  show "BrownFiV2PoolMath_swapExactInput
        (v2_reference_pool\<lparr>reserve0 := 150000000000000000000, lambda := 9223372036854775808\<rparr>)
        True 10000000000000000000
     = Inr (spec_quoteByInput
        (v2_reference_pool\<lparr>reserve0 := 150000000000000000000, lambda := 9223372036854775808\<rparr>)
        True 10000000000000000000)"
    by (rule v2_quoteByInput_refines) (simp_all add: spec_v2_eval v2_reference_pool_def)
  show "spec_quoteByInput
        (v2_reference_pool\<lparr>reserve0 := 150000000000000000000, lambda := 9223372036854775808\<rparr>)
        True 10000000000000000000 = 15091175854118633409"
    by (simp add: spec_v2_eval v2_reference_pool_def)
qed

section \<open>Insufficient liquidity\<close>

text \<open>
  Claim C5, as stated, fails: V2 checks the reserve of the output token only. With the
  reserve of the input token zero both V2 quotes return a value.
\<close>

theorem insufficient_liquidity_counterexample:
  "reserve0 (v2_reference_pool\<lparr>reserve0 := 0\<rparr>) \<le> 0
   \<and> (0::int) < 10000000000000000000
   \<and> BrownFiV2PoolMath_swapExactInput (v2_reference_pool\<lparr>reserve0 := 0\<rparr>) True
        10000000000000000000 = Inr 18140589569160997731
   \<and> (10000000000000000000::int) * 10 < reserve1 (v2_reference_pool\<lparr>reserve0 := 0\<rparr>) * 8
   \<and> BrownFiV2PoolMath_swapExactOutput (v2_reference_pool\<lparr>reserve0 := 0\<rparr>) True
        10000000000000000000 = Inr 5276315789473684210"
  by (simp add: v2_eval v2_reference_pool_def)

text \<open>
  Claim C5, amended. For a positive amount, V1 \<^verbatim>\<open>swapExactOutput\<close> fails with
  \<open>INSUFFICIENT_LIQUIDITY\<close> exactly when one of the two reserves is not positive; V2
  \<^verbatim>\<open>swapExactInput\<close> and \<^verbatim>\<open>swapExactOutput\<close> fail with it exactly when the reserve of
  the output token is not positive.
\<close>

theorem insufficient_liquidity:
  "(0 < amountOut \<longrightarrow>
      (BrownFiPoolMath_swapExactOutput pool1 zeroToOne amountOut = Inl INSUFFICIENT_LIQUIDITY
        \<longleftrightarrow> reserve0 pool1 \<le> 0 \<or> reserve1 pool1 \<le> 0))
   \<and> (0 < amountIn \<longrightarrow>
      (BrownFiV2PoolMath_swapExactInput pool2 zeroToOne amountIn = Inl INSUFFICIENT_LIQUIDITY
        \<longleftrightarrow> (if zeroToOne then reserve1 pool2 else reserve0 pool2) \<le> 0))
   \<and> (0 < amountOut \<longrightarrow>
      (BrownFiV2PoolMath_swapExactOutput pool2 zeroToOne amountOut = Inl INSUFFICIENT_LIQUIDITY
        \<longleftrightarrow> (if zeroToOne then reserve1 pool2 else reserve0 pool2) \<le> 0))"
proof (intro conjI impI)
  assume a: "0 < amountOut"
  show "BrownFiPoolMath_swapExactOutput pool1 zeroToOne amountOut = Inl INSUFFICIENT_LIQUIDITY
        \<longleftrightarrow> reserve0 pool1 \<le> 0 \<or> reserve1 pool1 \<le> 0"
  proof (cases "reserve0 pool1 \<le> 0 \<or> reserve1 pool1 \<le> 0")
    case True
    then show ?thesis
      using a unfolding BrownFiPoolMath_swapExactOutput_def Let_def by auto
  next
    case False
    have "fails_only_with {INSUFFICIENT_OUTPUT_AMOUNT, RangeError}
            (BrownFiPoolMath_swapExactOutput pool1 zeroToOne amountOut)"
      using a False unfolding BrownFiPoolMath_swapExactOutput_def Let_def
      by (simp add: fails_only_with_andThen)
    then have "BrownFiPoolMath_swapExactOutput pool1 zeroToOne amountOut \<noteq> Inl INSUFFICIENT_LIQUIDITY"
      by (rule fails_only_withD) simp
    then show ?thesis using False by simp
  qed
next
  assume a: "0 < amountIn"
  define reserveOut where "reserveOut = (if zeroToOne then reserve1 pool2 else reserve0 pool2)"
  show "BrownFiV2PoolMath_swapExactInput pool2 zeroToOne amountIn = Inl INSUFFICIENT_LIQUIDITY
        \<longleftrightarrow> (if zeroToOne then reserve1 pool2 else reserve0 pool2) \<le> 0"
  proof (cases "reserveOut \<le> 0")
    case True
    then show ?thesis
      using a unfolding BrownFiV2PoolMath_swapExactInput_def Let_def reserveOut_def
      by (simp add: not_le)
  next
    case False
    then have "fails_only_with {RangeError} (BrownFiV2PoolMath_swapExactInput pool2 zeroToOne amountIn)"
      using a unfolding reserveOut_def by (intro v2_swapExactInput_valid) simp_all
    then have "BrownFiV2PoolMath_swapExactInput pool2 zeroToOne amountIn \<noteq> Inl INSUFFICIENT_LIQUIDITY"
      by (rule fails_only_withD) simp
    then show ?thesis using False unfolding reserveOut_def by simp
  qed
next
  assume a: "0 < amountOut"
  define reserveOut where "reserveOut = (if zeroToOne then reserve1 pool2 else reserve0 pool2)"
  show "BrownFiV2PoolMath_swapExactOutput pool2 zeroToOne amountOut = Inl INSUFFICIENT_LIQUIDITY
        \<longleftrightarrow> (if zeroToOne then reserve1 pool2 else reserve0 pool2) \<le> 0"
  proof (cases "reserveOut \<le> 0")
    case True
    then show ?thesis
      using a unfolding BrownFiV2PoolMath_swapExactOutput_def Let_def reserveOut_def
      by (simp add: not_le)
  next
    case False
    have "fails_only_with {MAX_80_PERCENT_OF_RESERVE, RangeError}
            (BrownFiV2PoolMath_swapExactOutput pool2 zeroToOne amountOut)"
      using a False unfolding BrownFiV2PoolMath_swapExactOutput_def Let_def reserveOut_def
      by (simp add: fails_only_with_andThen split_beta not_le)
    then have "BrownFiV2PoolMath_swapExactOutput pool2 zeroToOne amountOut \<noteq> Inl INSUFFICIENT_LIQUIDITY"
      by (rule fails_only_withD) simp
    then show ?thesis using False unfolding reserveOut_def by simp
  qed
qed

theorem insufficient_liquidity_witness:
  "BrownFiPoolMath_swapExactOutput (v1_reference_pool\<lparr>reserve0 := 0\<rparr>) True 5
     = Inl INSUFFICIENT_LIQUIDITY
   \<and> BrownFiV2PoolMath_swapExactInput (v2_reference_pool\<lparr>reserve1 := 0\<rparr>) True 7
     = Inl INSUFFICIENT_LIQUIDITY
   \<and> BrownFiV2PoolMath_swapExactOutput (v2_reference_pool\<lparr>reserve1 := 0\<rparr>) True 5
     = Inl INSUFFICIENT_LIQUIDITY"
  using insufficient_liquidity
    [of 5 "v1_reference_pool\<lparr>reserve0 := 0\<rparr>" True 7 "v2_reference_pool\<lparr>reserve1 := 0\<rparr>"]
  by (simp add: v1_reference_pool_def v2_reference_pool_def)

section \<open>Monotonicity of the quotes\<close>

lemma bigint_div_mono:
  assumes "0 < d" "a \<le> b"
  shows "bigint_div a d \<le> bigint_div b d"
proof (cases "0 \<le> a")
  case True
  then have "0 \<le> b" using assms by linarith
  then show ?thesis
    using True assms by (simp add: bigint_div_nonneg zdiv_mono1)
next
  case False
  then have a: "a \<le> 0" by simp
  have qa: "bigint_div a d = - ((- a) div d)" using a assms(1) by (rule bigint_div_neg_dividend)
  show ?thesis
  proof (cases "0 \<le> b")
    case True
    have "0 \<le> (- a) div d" using a assms by (simp add: pos_imp_zdiv_nonneg_iff)
    moreover have "0 \<le> b div d" using True assms by (simp add: pos_imp_zdiv_nonneg_iff)
    ultimately show ?thesis using True assms qa by (simp add: bigint_div_nonneg)
  next
    case False
    then have b: "b \<le> 0" by simp
    have qb: "bigint_div b d = - ((- b) div d)" using b assms(1) by (rule bigint_div_neg_dividend)
    have "(- b) div d \<le> (- a) div d" using assms by (intro zdiv_mono1) simp_all
    then show ?thesis unfolding qa qb by simp
  qed
qed

lemma bigint_div_nonneg_result: "0 \<le> a \<Longrightarrow> 0 < d \<Longrightarrow> 0 \<le> bigint_div a d"
  by (simp add: bigint_div_nonneg pos_imp_zdiv_nonneg_iff)

lemma parseRaw_mono:
  assumes "a \<le> b"
  shows "parseRawToDefaultDecimals d a \<le> parseRawToDefaultDecimals d b"
proof -
  have p: "(0::int) < 10 ^ n" for n by simp
  show ?thesis
    using assms p unfolding parseRawToDefaultDecimals_def
    by (simp add: bigint_div_mono mult_right_mono)
qed

lemma parseDefault_mono:
  assumes "a \<le> b"
  shows "parseDefaultDecimalsToRaw d a \<le> parseDefaultDecimalsToRaw d b"
proof -
  have p: "(0::int) < 10 ^ n" for n by simp
  show ?thesis
    using assms p unfolding parseDefaultDecimalsToRaw_def
    by (simp add: bigint_div_mono mult_right_mono)
qed

lemma div_fraction_mono:
  fixes a1 a2 b1 b2 :: int
  assumes "0 < b1" "0 < b2" "a1 * b2 \<le> a2 * b1"
  shows "a1 div b1 \<le> a2 div b2"
proof -
  define q where "q = a1 div b1"
  have "q * b1 \<le> a1" using assms(1) int_le_div_iff [of b1 q a1] by (simp add: q_def)
  then have "q * b1 * b2 \<le> a1 * b2" using assms(2) by (simp add: mult_right_mono)
  then have "(q * b2) * b1 \<le> a2 * b1" using assms(3) by (simp add: mult.commute mult.left_commute)
  then have "q * b2 \<le> a2" using assms(1) by simp
  then show ?thesis using assms(2) int_le_div_iff [of b2 q a2] by (simp add: q_def)
qed

lemma spec_mulDivCeil_fraction_mono:
  assumes "0 < d1" "0 < d2" "(a1 * b1) * d2 \<le> (a2 * b2) * d1"
  shows "spec_mulDivCeil a1 b1 d1 \<le> spec_mulDivCeil a2 b2 d2"
proof -
  have "(- (a2 * b2)) * d1 \<le> (- (a1 * b1)) * d2" using assms(3) by simp
  then have "(- (a2 * b2)) div d2 \<le> (- (a1 * b1)) div d1"
    using assms(1,2) by (intro div_fraction_mono) simp_all
  then show ?thesis unfolding spec_mulDivCeil_div by simp
qed

lemma spec_mulDivCeil_mono:
  assumes "0 < d" "a1 * b1 \<le> a2 * b2"
  shows "spec_mulDivCeil a1 b1 d \<le> spec_mulDivCeil a2 b2 d"
  using assms by (intro spec_mulDivCeil_fraction_mono) (simp_all add: mult_right_mono)

lemma spec_mulDivCeil_nonneg:
  assumes "0 < d" "0 \<le> a * b"
  shows "0 \<le> spec_mulDivCeil a b d"
proof -
  have "(- (a * b)) div d \<le> 0" using assms by (intro div_nonpos_pos_le0) simp_all
  then show ?thesis unfolding spec_mulDivCeil_div by simp
qed

lemma spec_mulDivCeil_pos:
  assumes "0 < d" "0 < a * b"
  shows "0 < spec_mulDivCeil a b d"
proof -
  have "(- (a * b)) div d < 0" using assms by (intro div_neg_pos_less0) simp_all
  then show ?thesis unfolding spec_mulDivCeil_div by simp
qed

text \<open>What a successful V1 quote implies.\<close>

lemma v1_swapExactOutput_success:
  assumes "BrownFiPoolMath_swapExactOutput pool zeroToOne amountOut = Inr r"
    and "fee_v1 pool < 10000"
  shows "0 < amountOut" "0 < reserve0 pool" "0 < reserve1 pool"
    "spec_mulDivCeil amountOut 10000 (10000 - fee_v1 pool) * 10
       < (if zeroToOne then reserve1 pool else reserve0 pool) * 9"
    "zeroToOne \<longrightarrow> oraclePrice pool \<noteq> 0"
proof -
  show a: "0 < amountOut"
    using assms(1) unfolding BrownFiPoolMath_swapExactOutput_def Let_def
    by (auto split: if_splits)
  show r: "0 < reserve0 pool" "0 < reserve1 pool"
    using assms(1) unfolding BrownFiPoolMath_swapExactOutput_def Let_def
    by (auto split: if_splits)
  note u = v1_swapExactOutput_unfold [OF a r assms(2), of zeroToOne]
  show c: "spec_mulDivCeil amountOut 10000 (10000 - fee_v1 pool) * 10
       < (if zeroToOne then reserve1 pool else reserve0 pool) * 9"
    using assms(1) unfolding u Let_def by (auto split: if_splits)
  show "zeroToOne \<longrightarrow> oraclePrice pool \<noteq> 0"
  proof
    assume z: zeroToOne
    show "oraclePrice pool \<noteq> 0"
    proof
      assume "oraclePrice pool = 0"
      then have "BrownFiPoolMath_swapExactOutput pool zeroToOne amountOut = Inl RangeError
        \<or> (\<exists>e. BrownFiPoolMath_swapExactOutput pool zeroToOne amountOut = Inl e)"
        using z c unfolding u Let_def
        by (cases "mulDivRoundingUp (if kappa_v1 pool = 0 then Q128 else kappa_v1 pool)
              (spec_mulDivCeil amountOut 10000 (10000 - fee_v1 pool))
              (reserve1 pool - spec_mulDivCeil amountOut 10000 (10000 - fee_v1 pool))")
          (simp_all add: mulDivRoundingUp_def not_le)
      then show False using assms(1) by auto
    qed
  qed
qed

lemma spec_v1_quoteByOutput_mono:
  assumes fee: "fee_v1 pool < 10000" and k: "0 \<le> kappa_v1 pool" and p: "0 \<le> oraclePrice pool"
    and pz: "zeroToOne \<longrightarrow> 0 < oraclePrice pool"
    and a: "0 < a" "a \<le> b"
    and cap: "spec_mulDivCeil b 10000 (10000 - fee_v1 pool) * 10
       < (if zeroToOne then reserve1 pool else reserve0 pool) * 9"
    and rout: "0 < (if zeroToOne then reserve1 pool else reserve0 pool)"
  shows "spec_v1_quoteByOutput pool zeroToOne a \<le> spec_v1_quoteByOutput pool zeroToOne b"
proof -
  define R where "R = (if zeroToOne then reserve1 pool else reserve0 pool)"
  define d where "d = 10000 - fee_v1 pool"
  define kk where "kk = (if kappa_v1 pool = 0 then Q128 else kappa_v1 pool)"
  define wa where "wa = spec_mulDivCeil a 10000 d"
  define wb where "wb = spec_mulDivCeil b 10000 d"
  define ra where "ra = spec_mulDivCeil kk wa (R - wa)"
  define rb where "rb = spec_mulDivCeil kk wb (R - wb)"
  define avg where "avg = (\<lambda>r. if zeroToOne
                      then spec_mulDivCeil (2 * Q128 + r) Q128 (oraclePrice pool * 2)
                      else spec_mulDivCeil (oraclePrice pool) (2 * Q128 + r) (2 * Q128))"
  have d: "0 < d" using fee by (simp add: d_def)
  have kk: "0 \<le> kk" using k Q128_pos by (simp add: kk_def)
  have wab: "wa \<le> wb" unfolding wa_def wb_def using d a by (intro spec_mulDivCeil_mono) simp_all
  have wa0: "0 < wa" unfolding wa_def using d a by (intro spec_mulDivCeil_pos) simp_all
  have capb: "wb * 10 < R * 9" using cap by (simp add: wb_def d_def R_def)
  have R: "0 < R" using rout by (simp add: R_def)
  have db: "0 < R - wb" using capb R by linarith
  have da: "0 < R - wa" using db wab by linarith
  have rab: "ra \<le> rb"
    unfolding ra_def rb_def
  proof (rule spec_mulDivCeil_fraction_mono [OF da db])
    have "kk * wa * (R - wb) \<le> kk * wa * (R - wa)"
      using kk wa0 wab by (intro mult_left_mono) simp_all
    also have "\<dots> \<le> kk * wb * (R - wa)"
      using kk wab da by (intro mult_right_mono mult_left_mono) simp_all
    finally show "kk * wa * (R - wb) \<le> kk * wb * (R - wa)" .
  qed
  have ra0: "0 \<le> ra"
    unfolding ra_def using da kk wa0 by (intro spec_mulDivCeil_nonneg) simp_all
  have q2: "0 \<le> 2 * Q128 + ra" using ra0 Q128_pos by linarith
  have avg_mono: "avg ra \<le> avg rb"
  proof (cases zeroToOne)
    case True
    then have "0 < oraclePrice pool * 2" using pz by simp
    then show ?thesis
      unfolding avg_def using True rab Q128_pos
      by (simp add: spec_mulDivCeil_mono)
  next
    case False
    have "0 < 2 * Q128" using Q128_pos by simp
    then show ?thesis
      unfolding avg_def using False rab p
      by (simp add: spec_mulDivCeil_mono mult_left_mono)
  qed
  have avg0: "0 \<le> avg ra"
  proof (cases zeroToOne)
    case True
    then have "0 < oraclePrice pool * 2" using pz by simp
    then show ?thesis
      unfolding avg_def using True q2 Q128_pos
      by (simp add: spec_mulDivCeil_nonneg)
  next
    case False
    have "0 < 2 * Q128" using Q128_pos by simp
    then show ?thesis
      unfolding avg_def using False q2 p
      by (simp add: spec_mulDivCeil_nonneg)
  qed
  have "wa * avg ra \<le> wb * avg rb"
    using wab avg_mono wa0 avg0 by (intro mult_mono) simp_all
  then have "spec_mulDivCeil wa (avg ra) Q128 \<le> spec_mulDivCeil wb (avg rb) Q128"
    using Q128_pos by (intro spec_mulDivCeil_mono)
  then show ?thesis
    unfolding spec_v1_quoteByOutput_def Let_def avg_def ra_def rb_def wa_def wb_def kk_def
      d_def R_def .
qed

lemma v1_swapExactOutput_mono:
  assumes "fee_v1 pool < 10000" "0 \<le> kappa_v1 pool" "0 \<le> oraclePrice pool" "a \<le> b"
    and ra: "BrownFiPoolMath_swapExactOutput pool zeroToOne a = Inr ra"
    and rb: "BrownFiPoolMath_swapExactOutput pool zeroToOne b = Inr rb"
  shows "ra \<le> rb"
proof -
  note sa = v1_swapExactOutput_success [OF ra assms(1)]
  note sb = v1_swapExactOutput_success [OF rb assms(1)]
  have pz: "zeroToOne \<longrightarrow> 0 < oraclePrice pool" using sa(5) assms(3) by auto
  have rout: "0 < (if zeroToOne then reserve1 pool else reserve0 pool)" using sa(2,3) by simp
  have "ra = spec_v1_quoteByOutput pool zeroToOne a"
    using v1_swapExactOutput_value [OF sa(2,3) assms(1) sa(1) sa(4) pz] ra by simp
  moreover have "rb = spec_v1_quoteByOutput pool zeroToOne b"
    using v1_swapExactOutput_value [OF sb(2,3) assms(1) sb(1) sb(4) pz] rb by simp
  ultimately show ?thesis
    using spec_v1_quoteByOutput_mono [OF assms(1-3) pz sa(1) assms(4) sb(4) rout] by simp
qed

lemma mulDiv_Inr:
  assumes "mulDiv a b d = Inr x"
  shows "d \<noteq> 0" "x = bigint_div (a * b) d"
  using assms by (auto simp: mulDiv_def split: if_splits)

lemma getSkewnessPrice_zero_sum:
  assumes "lam \<noteq> 0" "reserveA * priceA + reserveB * priceB = 0"
  shows "getSkewnessPrice priceA priceB reserveA reserveB lam = Inl RangeError"
  using assms(1) unfolding getSkewnessPrice_def Let_def assms(2)
  by (simp add: mulDiv_by_zero)

lemma skewedPrices_nonneg:
  assumes "v2_parameters_in_range pool" "skewedPrices pool zeroToOne = Inr (pI, pO)"
  shows "0 \<le> pI" "0 \<le> pO"
proof -
  define rA where "rA = parseRawToDefaultDecimals (token0Decimals pool) (reserve0 pool)"
  define rB where "rB = parseRawToDefaultDecimals (token1Decimals pool) (reserve1 pool)"
  define pA where "pA = (if zeroToOne then price0 pool else price1 pool)"
  define pB where "pB = (if zeroToOne then price1 pool else price0 pool)"
  have r: "0 \<le> rA" "0 \<le> rB"
    using assms(1) parseRaw_nonneg [of "reserve0 pool" "token0Decimals pool"]
      parseRaw_nonneg [of "reserve1 pool" "token1Decimals pool"]
    by (simp_all add: v2_parameters_in_range_def rA_def rB_def)
  have p: "0 \<le> pA" "0 \<le> pB"
    using assms(1) by (simp_all add: v2_parameters_in_range_def pA_def pB_def)
  have l: "0 \<le> lambda pool" "lambda pool \<le> Q64"
    using assms(1) by (simp_all add: v2_parameters_in_range_def)
  have g: "getSkewnessPrice pA pB rA rB (lambda pool) = Inr (pI, pO)"
    using assms(2) by (simp add: skewedPrices_def pA_def pB_def rA_def rB_def)
  have "lambda pool \<noteq> 0 \<longrightarrow> rA * pA + rB * pB \<noteq> 0"
    using g getSkewnessPrice_zero_sum [of "lambda pool" rA pA rB pB] by auto
  from getSkewnessPrice_spec [OF p r l this] g
  have "spec_skewAdjust pA pB rA rB (lambda pool) = (pI, pO)"
    "0 \<le> fst (spec_skewAdjust pA pB rA rB (lambda pool))"
    "0 \<le> snd (spec_skewAdjust pA pB rA rB (lambda pool))"
    by simp_all
  then show "0 \<le> pI" "0 \<le> pO" by simp_all
qed

lemma v2_swapExactOutput_success:
  assumes "BrownFiV2PoolMath_swapExactOutput pool zeroToOne a = Inr r"
  shows "0 < a \<and> 0 < (if zeroToOne then reserve1 pool else reserve0 pool)
    \<and> a * 10 < (if zeroToOne then reserve1 pool else reserve0 pool) * 8
    \<and> (\<exists>pI pO pim inner ain ain'.
        skewedPrices pool zeroToOne = Inr (pI, pO)
        \<and> mulDiv (kappa pool * Q64)
             (parseRawToDefaultDecimals (if zeroToOne then token1Decimals pool else token0Decimals pool) a)
             (Q64 * (parseRawToDefaultDecimals (if zeroToOne then token1Decimals pool else token0Decimals pool)
                       (if zeroToOne then reserve1 pool else reserve0 pool)
                     - parseRawToDefaultDecimals (if zeroToOne then token1Decimals pool else token0Decimals pool) a))
           = Inr pim
        \<and> mulDiv pO (pim + Q64 * 2) pI = Inr inner
        \<and> mulDiv (parseRawToDefaultDecimals (if zeroToOne then token1Decimals pool else token0Decimals pool) a)
             inner (Q64 * 2) = Inr ain
        \<and> mulDiv ain (PRECISION + fee pool) PRECISION = Inr ain'
        \<and> r = parseDefaultDecimalsToRaw (if zeroToOne then token0Decimals pool else token1Decimals pool) ain')"
  using assms unfolding BrownFiV2PoolMath_swapExactOutput_def Let_def
  by (auto simp: andThen_eq_Inr_iff not_le split: if_splits)

lemma v2_swapExactInput_success:
  assumes "BrownFiV2PoolMath_swapExactInput pool zeroToOne a = Inr r" "kappa pool = 2 * Q64"
  shows "0 < a \<and> 0 < (if zeroToOne then reserve1 pool else reserve0 pool)
    \<and> (\<exists>pI pO e out.
        skewedPrices pool zeroToOne = Inr (pI, pO)
        \<and> mulDiv (parseRawToDefaultDecimals (if zeroToOne then token0Decimals pool else token1Decimals pool) a)
             PRECISION (PRECISION + fee pool) = Inr e
        \<and> mulDiv (parseRawToDefaultDecimals (if zeroToOne then token1Decimals pool else token0Decimals pool)
                    (if zeroToOne then reserve1 pool else reserve0 pool) * e) pI
             (pO * parseRawToDefaultDecimals (if zeroToOne then token1Decimals pool else token0Decimals pool)
                    (if zeroToOne then reserve1 pool else reserve0 pool) + e * pI) = Inr out
        \<and> r = parseDefaultDecimalsToRaw (if zeroToOne then token1Decimals pool else token0Decimals pool) out)"
  using assms unfolding BrownFiV2PoolMath_swapExactInput_def Let_def
  by (auto simp: andThen_eq_Inr_iff not_le split: if_splits)

lemma v2_swapExactOutput_mono:
  assumes rng: "v2_parameters_in_range pool" and ab: "a \<le> b"
    and ra: "BrownFiV2PoolMath_swapExactOutput pool zeroToOne a = Inr ra"
    and rb: "BrownFiV2PoolMath_swapExactOutput pool zeroToOne b = Inr rb"
  shows "ra \<le> rb"
proof -
  define dIn where "dIn = (if zeroToOne then token0Decimals pool else token1Decimals pool)"
  define dOut where "dOut = (if zeroToOne then token1Decimals pool else token0Decimals pool)"
  define reserveOut where "reserveOut = (if zeroToOne then reserve1 pool else reserve0 pool)"
  define pr where "pr = parseRawToDefaultDecimals dOut reserveOut"
  define pa where "pa = parseRawToDefaultDecimals dOut a"
  define pb where "pb = parseRawToDefaultDecimals dOut b"
  define k where "k = kappa pool * Q64"
  define f where "f = PRECISION + fee pool"
  from v2_swapExactOutput_success [OF ra] obtain pI pO pim1 inner1 ain1 ain1'
    where A: "0 < a" "0 < reserveOut" "a * 10 < reserveOut * 8"
      "skewedPrices pool zeroToOne = Inr (pI, pO)"
      "mulDiv k pa (Q64 * (pr - pa)) = Inr pim1"
      "mulDiv pO (pim1 + Q64 * 2) pI = Inr inner1"
      "mulDiv pa inner1 (Q64 * 2) = Inr ain1"
      "mulDiv ain1 f PRECISION = Inr ain1'"
      "ra = parseDefaultDecimalsToRaw dIn ain1'"
    unfolding dIn_def dOut_def reserveOut_def pr_def pa_def k_def f_def by blast
  from v2_swapExactOutput_success [OF rb] obtain pI' pO' pim2 inner2 ain2 ain2'
    where B: "0 < b" "b * 10 < reserveOut * 8"
      "skewedPrices pool zeroToOne = Inr (pI', pO')"
      "mulDiv k pb (Q64 * (pr - pb)) = Inr pim2"
      "mulDiv pO' (pim2 + Q64 * 2) pI' = Inr inner2"
      "mulDiv pb inner2 (Q64 * 2) = Inr ain2"
      "mulDiv ain2 f PRECISION = Inr ain2'"
      "rb = parseDefaultDecimalsToRaw dIn ain2'"
    unfolding dIn_def dOut_def reserveOut_def pr_def pb_def k_def f_def by blast
  have same: "pI' = pI" "pO' = pO" using A(4) B(3) by simp_all
  have p0: "0 \<le> pI" "0 \<le> pO" using skewedPrices_nonneg [OF rng A(4)] by simp_all
  have k0: "0 \<le> k" using rng Q64_pos by (simp add: k_def v2_parameters_in_range_def)
  have f0: "0 \<le> f" using rng by (simp add: f_def PRECISION_def v2_parameters_in_range_def)
  have pa0: "0 \<le> pa"
    using parseRaw_nonneg [of a dOut] A(1) by (simp add: pa_def)
  have pab: "pa \<le> pb" unfolding pa_def pb_def using ab by (rule parseRaw_mono)
  have "b \<le> reserveOut" using B(2) A(2) by linarith
  then have "pb \<le> pr" unfolding pb_def pr_def by (rule parseRaw_mono)
  moreover have "Q64 * (pr - pb) \<noteq> 0" using mulDiv_Inr(1) [OF B(4)] .
  ultimately have db: "0 < pr - pb" by (cases "pr = pb") simp_all
  have da: "0 < pr - pa" using db pab by linarith
  have Da: "0 < Q64 * (pr - pa)" and Db: "0 < Q64 * (pr - pb)"
    using da db Q64_pos by simp_all
  have n0: "0 \<le> k * pa" using k0 pa0 by simp
  have n1: "0 \<le> k * pb" using k0 pa0 pab by simp
  have pim1: "pim1 = (k * pa) div (Q64 * (pr - pa))"
    using mulDiv_Inr(2) [OF A(5)] n0 Da by (simp add: bigint_div_nonneg)
  have pim2: "pim2 = (k * pb) div (Q64 * (pr - pb))"
    using mulDiv_Inr(2) [OF B(4)] n1 Db by (simp add: bigint_div_nonneg)
  have pim: "pim1 \<le> pim2"
    unfolding pim1 pim2
  proof (rule div_fraction_mono [OF Da Db])
    have "pr - pb \<le> pr - pa" using pab by simp
    then have "k * pa * (Q64 * (pr - pb)) \<le> k * pa * (Q64 * (pr - pa))"
      using n0 Q64_pos by (intro mult_left_mono) simp_all
    also have "\<dots> \<le> k * pb * (Q64 * (pr - pa))"
      using k0 pab Da by (intro mult_right_mono mult_left_mono) simp_all
    finally show "k * pa * (Q64 * (pr - pb)) \<le> k * pb * (Q64 * (pr - pa))" .
  qed
  have pim0: "0 \<le> pim1" unfolding pim1 using n0 Da by (simp add: pos_imp_zdiv_nonneg_iff)
  have pIpos: "0 < pI" using mulDiv_Inr(1) [OF A(6)] p0(1) by simp
  have i1: "inner1 = bigint_div (pO * (pim1 + Q64 * 2)) pI" using mulDiv_Inr(2) [OF A(6)] .
  have i2: "inner2 = bigint_div (pO * (pim2 + Q64 * 2)) pI"
    using mulDiv_Inr(2) [OF B(5)] same by simp
  have "pO * (pim1 + Q64 * 2) \<le> pO * (pim2 + Q64 * 2)"
    using p0(2) pim by (intro mult_left_mono) simp_all
  then have inner: "inner1 \<le> inner2" unfolding i1 i2 using pIpos by (intro bigint_div_mono)
  have "0 \<le> pO * (pim1 + Q64 * 2)" using p0(2) pim0 Q64_pos by simp
  then have inner0: "0 \<le> inner1" unfolding i1 using pIpos by (rule bigint_div_nonneg_result)
  have q2: "0 < Q64 * 2" using Q64_pos by simp
  have a1: "ain1 = bigint_div (pa * inner1) (Q64 * 2)" using mulDiv_Inr(2) [OF A(7)] .
  have a2: "ain2 = bigint_div (pb * inner2) (Q64 * 2)" using mulDiv_Inr(2) [OF B(6)] .
  have "pa * inner1 \<le> pb * inner2" using pab inner pa0 inner0 by (intro mult_mono) simp_all
  then have ain: "ain1 \<le> ain2" unfolding a1 a2 using q2 by (intro bigint_div_mono)
  have P: "0 < PRECISION" by (simp add: PRECISION_def)
  have "ain1 * f \<le> ain2 * f" using ain f0 by (rule mult_right_mono)
  then have "bigint_div (ain1 * f) PRECISION \<le> bigint_div (ain2 * f) PRECISION"
    using P by (intro bigint_div_mono)
  then have "ain1' \<le> ain2'"
    using mulDiv_Inr(2) [OF A(8)] mulDiv_Inr(2) [OF B(7)] by simp
  then show ?thesis unfolding A(9) B(8) by (rule parseDefault_mono)
qed

lemma v2_swapExactInput_mono:
  assumes rng: "v2_parameters_in_range pool" and cp: "kappa pool = 2 * Q64" and ab: "a \<le> b"
    and ra: "BrownFiV2PoolMath_swapExactInput pool zeroToOne a = Inr ra"
    and rb: "BrownFiV2PoolMath_swapExactInput pool zeroToOne b = Inr rb"
  shows "ra \<le> rb"
proof -
  define dIn where "dIn = (if zeroToOne then token0Decimals pool else token1Decimals pool)"
  define dOut where "dOut = (if zeroToOne then token1Decimals pool else token0Decimals pool)"
  define reserveOut where "reserveOut = (if zeroToOne then reserve1 pool else reserve0 pool)"
  define R where "R = parseRawToDefaultDecimals dOut reserveOut"
  define pa where "pa = parseRawToDefaultDecimals dIn a"
  define pb where "pb = parseRawToDefaultDecimals dIn b"
  define f where "f = PRECISION + fee pool"
  from v2_swapExactInput_success [OF ra cp] obtain pI pO e1 out1
    where A: "0 < a" "0 < reserveOut"
      "skewedPrices pool zeroToOne = Inr (pI, pO)"
      "mulDiv pa PRECISION f = Inr e1"
      "mulDiv (R * e1) pI (pO * R + e1 * pI) = Inr out1"
      "ra = parseDefaultDecimalsToRaw dOut out1"
    unfolding dIn_def dOut_def reserveOut_def R_def pa_def f_def by blast
  from v2_swapExactInput_success [OF rb cp] obtain pI' pO' e2 out2
    where B: "0 < b"
      "skewedPrices pool zeroToOne = Inr (pI', pO')"
      "mulDiv pb PRECISION f = Inr e2"
      "mulDiv (R * e2) pI' (pO' * R + e2 * pI') = Inr out2"
      "rb = parseDefaultDecimalsToRaw dOut out2"
    unfolding dIn_def dOut_def reserveOut_def R_def pb_def f_def by blast
  have same: "pI' = pI" "pO' = pO" using A(3) B(2) by simp_all
  have p0: "0 \<le> pI" "0 \<le> pO" using skewedPrices_nonneg [OF rng A(3)] by simp_all
  have f0: "0 < f" using rng by (simp add: f_def PRECISION_def v2_parameters_in_range_def)
  have P: "0 \<le> PRECISION" by (simp add: PRECISION_def)
  have pa0: "0 \<le> pa" using parseRaw_nonneg [of a dIn] A(1) by (simp add: pa_def)
  have pab: "pa \<le> pb" unfolding pa_def pb_def using ab by (rule parseRaw_mono)
  have R0: "0 \<le> R" using parseRaw_nonneg [of reserveOut dOut] A(2) by (simp add: R_def)
  have e1: "e1 = bigint_div (pa * PRECISION) f" using mulDiv_Inr(2) [OF A(4)] .
  have e2: "e2 = bigint_div (pb * PRECISION) f" using mulDiv_Inr(2) [OF B(3)] .
  have "pa * PRECISION \<le> pb * PRECISION" using pab P by (rule mult_right_mono)
  then have e12: "e1 \<le> e2" unfolding e1 e2 using f0 by (intro bigint_div_mono)
  have e10: "0 \<le> e1" unfolding e1 using pa0 P f0 by (intro bigint_div_nonneg_result) simp_all
  have e20: "0 \<le> e2" using e10 e12 by linarith
  have d1: "0 < pO * R + e1 * pI"
    using mulDiv_Inr(1) [OF A(5)] p0 R0 e10
    by (cases "pO * R + e1 * pI = 0") (simp_all add: less_le)
  have d2: "0 < pO * R + e2 * pI"
    using mulDiv_Inr(1) [OF B(4)] same p0 R0 e20
    by (cases "pO * R + e2 * pI = 0") (simp_all add: less_le)
  have o1: "out1 = (R * e1 * pI) div (pO * R + e1 * pI)"
    using mulDiv_Inr(2) [OF A(5)] R0 e10 p0 d1 by (simp add: bigint_div_nonneg)
  have o2: "out2 = (R * e2 * pI) div (pO * R + e2 * pI)"
    using mulDiv_Inr(2) [OF B(4)] same R0 e20 p0 d2 by (simp add: bigint_div_nonneg)
  have "out1 \<le> out2"
    unfolding o1 o2
  proof (rule div_fraction_mono [OF d1 d2])
    have c: "0 \<le> R * pI * (pO * R)" using R0 p0 by simp
    have L: "R * e1 * pI * (pO * R + e2 * pI)
        = e1 * (R * pI * (pO * R)) + R * pI * pI * e1 * e2"
      by (simp add: algebra_simps)
    have U: "R * e2 * pI * (pO * R + e1 * pI)
        = e2 * (R * pI * (pO * R)) + R * pI * pI * e1 * e2"
      by (simp add: algebra_simps)
    have "e1 * (R * pI * (pO * R)) \<le> e2 * (R * pI * (pO * R))"
      using e12 c by (rule mult_right_mono)
    then show "R * e1 * pI * (pO * R + e2 * pI) \<le> R * e2 * pI * (pO * R + e1 * pI)"
      unfolding L U by (rule add_right_mono)
  qed
  then show ?thesis unfolding A(6) B(5) by (rule parseDefault_mono)
qed

lemma sqrt_c9_a:
  "sqrt_bigint 895556818925255439806839567238154265635328000 = Inr 29925855358289350654067"
  by (rule sqrt_bigint_eq) simp_all

lemma sqrt_c9_b:
  "sqrt_bigint 895556818925255439986408174541532811746984000 = Inr 29925855358289350657068"
  by (rule sqrt_bigint_eq) simp_all

text \<open>
  Claim C9, as stated, fails. Neither \<^verbatim>\<open>swapExactOutput\<close> is strictly increasing:
  on the reference pools V1 returns 2 for the amounts 1 and 2, and V2 returns 1 for the
  amounts 2 and 3. And \<^verbatim>\<open>swapExactInput\<close> of V2 is not weakly increasing in the general
  case: with \<open>kappa = Q64\<close> and \<open>price0 = 3000 * Q64\<close> one more unit of input gives one unit
  less of output.
\<close>

theorem quote_monotonicity_counterexample:
  "(1::int) < 2
   \<and> BrownFiPoolMath_swapExactOutput v1_reference_pool True 1 = Inr 2
   \<and> BrownFiPoolMath_swapExactOutput v1_reference_pool True 2 = Inr 2
   \<and> (2::int) < 3
   \<and> BrownFiV2PoolMath_swapExactOutput v2_reference_pool True 2 = Inr 1
   \<and> BrownFiV2PoolMath_swapExactOutput v2_reference_pool True 3 = Inr 1
   \<and> (10000000000000000000::int) < 10000000000000000001
   \<and> BrownFiV2PoolMath_swapExactInput
        (v2_reference_pool\<lparr>kappa := Q64, price0 := 3000 * Q64\<rparr>) True 10000000000000000000
       = Inr 199331674129601961933
   \<and> BrownFiV2PoolMath_swapExactInput
        (v2_reference_pool\<lparr>kappa := Q64, price0 := 3000 * Q64\<rparr>) True 10000000000000000001
       = Inr 199331674129601961932"
proof (intro conjI)
  show "BrownFiPoolMath_swapExactOutput v1_reference_pool True 1 = Inr 2"
    by (simp add: v1_eval v1_reference_pool_def)
  show "BrownFiPoolMath_swapExactOutput v1_reference_pool True 2 = Inr 2"
    by (simp add: v1_eval v1_reference_pool_def)
  show "BrownFiV2PoolMath_swapExactOutput v2_reference_pool True 2 = Inr 1"
    by (simp add: v2_eval v2_reference_pool_def)
  show "BrownFiV2PoolMath_swapExactOutput v2_reference_pool True 3 = Inr 1"
    by (simp add: v2_eval v2_reference_pool_def)
  show "BrownFiV2PoolMath_swapExactInput
        (v2_reference_pool\<lparr>kappa := Q64, price0 := 3000 * Q64\<rparr>) True 10000000000000000000
       = Inr 199331674129601961933"
    by (simp add: v2_general_eval v2_reference_pool_def sqrt_c9_a)
  show "BrownFiV2PoolMath_swapExactInput
        (v2_reference_pool\<lparr>kappa := Q64, price0 := 3000 * Q64\<rparr>) True 10000000000000000001
       = Inr 199331674129601961932"
    by (simp add: v2_general_eval v2_reference_pool_def sqrt_c9_b)
qed simp_all

lemma v1_vector_output_twice:
  "BrownFiPoolMath_swapExactOutput v1_reference_pool True 20000000000000000000
     = Inr 11142061281337047355"
  by (simp add: v1_eval v1_reference_pool_def)

lemma v2_vector_output_twice:
  "BrownFiV2PoolMath_swapExactOutput v2_reference_pool True 20000000000000000000
     = Inr 11138888888888888887"
  by (simp add: v2_eval v2_reference_pool_def)

lemma v2_vector_input_twice:
  "BrownFiV2PoolMath_swapExactInput v2_reference_pool True 20000000000000000000
     = Inr 33264033264033264032"
  by (simp add: v2_eval v2_reference_pool_def)

text \<open>
  Claim C9, amended. For a fixed pool and direction and amounts \<open>a < b\<close> at which the quote
  returns a value: V1 \<^verbatim>\<open>swapExactOutput\<close> is weakly increasing when the fee is below 10000
  and \<open>kappa\<close> and the oracle price are not negative; V2 \<^verbatim>\<open>swapExactOutput\<close> is weakly
  increasing when the reserves, prices, \<open>kappa\<close> and fee are not negative and
  \<open>0 \<le> lambda \<le> Q64\<close>; V1 \<^verbatim>\<open>swapExactInput\<close> is strictly increasing; V2
  \<^verbatim>\<open>swapExactInput\<close> is weakly increasing, for parameters in the same range, in the
  constant-product case \<open>kappa = 2 * Q64\<close>.
\<close>

theorem quotes_weakly_increasing:
  "(fee_v1 pool1 < 10000 \<and> 0 \<le> kappa_v1 pool1 \<and> 0 \<le> oraclePrice pool1 \<and> a < b
      \<and> BrownFiPoolMath_swapExactOutput pool1 zeroToOne a = Inr ra
      \<and> BrownFiPoolMath_swapExactOutput pool1 zeroToOne b = Inr rb
      \<longrightarrow> ra \<le> rb)
   \<and> (v2_parameters_in_range pool2 \<and> a < b
      \<and> BrownFiV2PoolMath_swapExactOutput pool2 zeroToOne a = Inr ra
      \<and> BrownFiV2PoolMath_swapExactOutput pool2 zeroToOne b = Inr rb
      \<longrightarrow> ra \<le> rb)
   \<and> (a < b
      \<and> BrownFiPoolMath_swapExactInput pool1 zeroToOne a = Inr ra
      \<and> BrownFiPoolMath_swapExactInput pool1 zeroToOne b = Inr rb
      \<longrightarrow> ra < rb)
   \<and> (v2_parameters_in_range pool2 \<and> kappa pool2 = 2 * Q64 \<and> a < b
      \<and> BrownFiV2PoolMath_swapExactInput pool2 zeroToOne a = Inr ra
      \<and> BrownFiV2PoolMath_swapExactInput pool2 zeroToOne b = Inr rb
      \<longrightarrow> ra \<le> rb)"
proof (intro conjI impI)
  assume h: "fee_v1 pool1 < 10000 \<and> 0 \<le> kappa_v1 pool1 \<and> 0 \<le> oraclePrice pool1 \<and> a < b
      \<and> BrownFiPoolMath_swapExactOutput pool1 zeroToOne a = Inr ra
      \<and> BrownFiPoolMath_swapExactOutput pool1 zeroToOne b = Inr rb"
  then have "a \<le> b" by simp
  with h show "ra \<le> rb" by (intro v1_swapExactOutput_mono [of pool1 a b zeroToOne ra rb]) simp_all
next
  assume h: "v2_parameters_in_range pool2 \<and> a < b
      \<and> BrownFiV2PoolMath_swapExactOutput pool2 zeroToOne a = Inr ra
      \<and> BrownFiV2PoolMath_swapExactOutput pool2 zeroToOne b = Inr rb"
  then have "a \<le> b" by simp
  with h show "ra \<le> rb" by (intro v2_swapExactOutput_mono [of pool2 a b zeroToOne ra rb]) simp_all
next
  assume "a < b
      \<and> BrownFiPoolMath_swapExactInput pool1 zeroToOne a = Inr ra
      \<and> BrownFiPoolMath_swapExactInput pool1 zeroToOne b = Inr rb"
  then show "ra < rb" by (simp add: BrownFiPoolMath_swapExactInput_def)
next
  assume h: "v2_parameters_in_range pool2 \<and> kappa pool2 = 2 * Q64 \<and> a < b
      \<and> BrownFiV2PoolMath_swapExactInput pool2 zeroToOne a = Inr ra
      \<and> BrownFiV2PoolMath_swapExactInput pool2 zeroToOne b = Inr rb"
  then have "a \<le> b" by simp
  with h show "ra \<le> rb" by (intro v2_swapExactInput_mono [of pool2 a b zeroToOne ra rb]) simp_all
qed

theorem quotes_weakly_increasing_witness:
  "v2_parameters_in_range v2_reference_pool
   \<and> BrownFiPoolMath_swapExactOutput v1_reference_pool True 10000000000000000000
       = Inr 5277044854881266492
   \<and> BrownFiPoolMath_swapExactOutput v1_reference_pool True 20000000000000000000
       = Inr 11142061281337047355
   \<and> (5277044854881266492::int) \<le> 11142061281337047355
   \<and> BrownFiV2PoolMath_swapExactOutput v2_reference_pool True 10000000000000000000
       = Inr 5276315789473684210
   \<and> BrownFiV2PoolMath_swapExactOutput v2_reference_pool True 20000000000000000000
       = Inr 11138888888888888887
   \<and> (5276315789473684210::int) \<le> 11138888888888888887
   \<and> BrownFiV2PoolMath_swapExactInput v2_reference_pool True 10000000000000000000
       = Inr 18140589569160997731
   \<and> BrownFiV2PoolMath_swapExactInput v2_reference_pool True 20000000000000000000
       = Inr 33264033264033264032
   \<and> (18140589569160997731::int) \<le> 33264033264033264032"
  using
    quotes_weakly_increasing [of v1_reference_pool 10000000000000000000 20000000000000000000
      True 5277044854881266492 11142061281337047355 v2_reference_pool]
    quotes_weakly_increasing [of v1_reference_pool 10000000000000000000 20000000000000000000
      True 5276315789473684210 11138888888888888887 v2_reference_pool]
    quotes_weakly_increasing [of v1_reference_pool 10000000000000000000 20000000000000000000
      True 18140589569160997731 33264033264033264032 v2_reference_pool]
    v1_vector_output_zeroToOne v1_vector_output_twice
    v2_vector_output_zeroToOne v2_vector_output_twice
    v2_vector_input_zeroToOne v2_vector_input_twice
  by (simp add: v2_parameters_in_range_def v2_reference_pool_def v1_reference_pool_def Q64_def Q128_def)

end
